theory Spec2Isabelle
  imports Main "HOL-Library.AList"
begin

section \<open>Strings as the intent detection uses them\<close>

text \<open>
  Messages are Python \<open>str\<close> values; they are modelled as \<open>string\<close>, and the model
  is exact for ASCII text. \<open>lower\<close> folds the ASCII capitals and leaves every other
  character alone; all keywords and patterns of the source are ASCII.
\<close>

definition ascii_upper :: string where
  "ascii_upper = ''ABCDEFGHIJKLMNOPQRSTUVWXYZ''"

definition ascii_lower :: string where
  "ascii_lower = ''abcdefghijklmnopqrstuvwxyz''"

definition ascii_digit :: string where
  "ascii_digit = ''0123456789''"

definition lower_char :: "char \<Rightarrow> char" where
  "lower_char c = (case map_of (zip ascii_upper ascii_lower) c of Some d \<Rightarrow> d | None \<Rightarrow> c)"

definition lower :: "string \<Rightarrow> string" where
  "lower s = map lower_char s"

text \<open>\<open>starts_with p s\<close> is \<open>s.startswith(p)\<close>; \<open>str_in p s\<close> is Python's \<open>p in s\<close>.\<close>

fun starts_with :: "string \<Rightarrow> string \<Rightarrow> bool" where
  "starts_with [] s = True"
| "starts_with (p # ps) [] = False"
| "starts_with (p # ps) (c # cs) = (p = c \<and> starts_with ps cs)"

fun str_in :: "string \<Rightarrow> string \<Rightarrow> bool" where
  "str_in p [] = (p = [])"
| "str_in p (c # cs) = (starts_with p (c # cs) \<or> str_in p cs)"

text \<open>\<open>any(pattern in message for pattern in patterns)\<close>.\<close>

definition any_in :: "string list \<Rightarrow> string \<Rightarrow> bool" where
  "any_in patterns message = list_ex (\<lambda>pattern. str_in pattern message) patterns"

section \<open>Detected actions\<close>

text \<open>
  The detectors return a dict: \<open>{}\<close> for no action, otherwise
  \<open>{'action': 'create'}\<close>, \<open>{'action': 'delete_pattern', 'pattern': p}\<close>,
  \<open>{'action': 'clear_all', 'confirmed': b}\<close>, \<open>{'action': 'send_email', 'message': m}\<close>
  or \<open>{'action': 'set_reminder', 'message': m}\<close>. The empty dict is \<open>None\<close>.
\<close>

datatype action_info =
    Create
  | Delete_pattern string
  | Clear_all bool
  | Send_email string
  | Set_reminder string

subsection \<open>\<open>AIHandler._extract_delete_pattern\<close>\<close>

text \<open>
  \<open>re.search(r'"([^"]*)"', message)\<close> finds the leftmost double quote that has another
  one after it, which is the first double quote of the message; group 1 is the text up to
  the next double quote.
\<close>

definition quoted_match :: "string \<Rightarrow> string option" where
  "quoted_match message =
     (case dropWhile (\<lambda>c. c \<noteq> CHR 0x22) message of
        [] \<Rightarrow> None
      | q # rest \<Rightarrow> if CHR 0x22 \<in> set rest then Some (takeWhile (\<lambda>c. c \<noteq> CHR 0x22) rest) else None)"

definition extract_delete_pattern :: "string \<Rightarrow> string" where
  "extract_delete_pattern message =
     (let message_lower = lower message in
      if str_in ''meeting'' message_lower then ''meeting''
      else if str_in ''class'' message_lower then ''class''
      else if str_in ''appointment'' message_lower then ''appointment''
      else if str_in ''call'' message_lower then ''call''
      else (case quoted_match message of Some g \<Rightarrow> g | None \<Rightarrow> ''''))"

subsection \<open>\<open>AIHandler.detect_calendar_action\<close>\<close>

definition create_patterns :: "string list" where
  "create_patterns =
     [''schedule a'', ''add to calendar'', ''create meeting'', ''book appointment'',
      ''set reminder'', ''plan meeting'', ''i have class at'', ''i have meeting at'',
      ''schedule meeting'', ''book a'', ''arrange meeting'', ''set up meeting'',
      ''create appointment'', ''can you set me'', ''set me a'', ''can you schedule'',
      ''can you create'', ''can you add'', ''can you book'', ''set a schedule'',
      ''make me a'', ''add a'', ''put on my calendar'', ''schedule for me'']"

definition delete_patterns :: "string list" where
  "delete_patterns =
     [''remove my'', ''delete my'', ''cancel my'', ''clear my schedule'', ''remove my schedule'',
      ''delete all events'', ''clear all events'', ''remove all meetings'', ''cancel all'',
      ''clear my calendar'', ''remove everything'', ''delete everything'',
      ''i want to remove all'', ''delete all my'', ''remove all of my'',
      ''remove all my meetings'', ''delete all my meetings'', ''cancel all my meetings'',
      ''clear all my events'', ''remove all my events'', ''delete all my events'']"

definition query_patterns :: "string list" where
  "query_patterns =
     [[CHR ''w'', CHR ''h'', CHR ''a'', CHR ''t'', CHR 0x27, CHR ''s'', CHR '' '',
       CHR ''o'', CHR ''n'', CHR '' '', CHR ''m'', CHR ''y''],
      ''what do i have'', ''am i free'', ''do i have'', ''check my'',
      ''show my'', ''when is my'', ''any meetings'', ''any events today'', ''any events tomorrow'',
      ''schedule today'', ''schedule tomorrow'', ''busy today'', ''busy tomorrow'']"

definition confirmation_words :: "string list" where
  "confirmation_words = [''yes'', ''sure'', ''confirm'', ''definitely'', ''absolutely'']"

text \<open>
  The deletion branch returns in every case but one: a message naming \<open>all my meetings\<close>
  or \<open>all my events\<close> that contains neither \<open>meetings\<close> nor \<open>events\<close> falls through
  to the creation test, as the nested \<open>if\<close>/\<open>elif\<close> of the source does.
\<close>

definition detect_create :: "string \<Rightarrow> action_info option" where
  "detect_create message_lower =
     (if any_in create_patterns message_lower then Some Create else None)"

definition detect_calendar_action :: "string \<Rightarrow> action_info option" where
  "detect_calendar_action user_message =
     (let message_lower = lower user_message in
      if any_in query_patterns message_lower then None
      else if any_in delete_patterns message_lower then
        (if str_in ''all my meetings'' message_lower \<or> str_in ''all my events'' message_lower then
           (if str_in ''meetings'' message_lower then Some (Delete_pattern ''meeting'')
            else if str_in ''events'' message_lower then Some (Delete_pattern ''event'')
            else detect_create message_lower)
         else if str_in ''clear my schedule'' message_lower
                 \<or> str_in ''clear my calendar'' message_lower
                 \<or> str_in ''clear all'' message_lower then
           Some (Clear_all (any_in confirmation_words message_lower))
         else Some (Delete_pattern (extract_delete_pattern user_message)))
      else detect_create message_lower)"

subsection \<open>\<open>AIHandler.execute_calendar_action\<close>\<close>

text \<open>
  The calendar collaborator is a record of its answers: \<open>Inl e\<close> is an exception with text
  \<open>e\<close>, \<open>Inr r\<close> the returned message. \<open>handler_set\<close> says that a calendar handler has
  been injected (\<open>self.calendar_handler\<close> is not \<open>None\<close>). The function returns the
  user-visible result together with the collaborator calls it made, in order. Each
  constructor of \<open>calendar_result\<close> stands for one of the fixed message texts of the source.
\<close>

datatype calendar_call =
    Call_clear_all_events
  | Call_delete_events_by_title string
  | Call_parse_meeting_request string
  | Call_create_calendar_event string

datatype calendar_result =
    Calendar_not_available
  | Calendar_cleared string
  | Clear_all_confirmation_request
  | Events_deleted string
  | Please_specify_events
  | Event_created string
  | Could_not_understand_meeting
  | Unknown_calendar_action
  | Error_performing_calendar_action string

record calendar_handler =
  handler_set :: bool
  is_authenticated :: bool
  clear_all_events :: "string + string"
  delete_events_by_title :: "string \<Rightarrow> string + string"
  parse_meeting_request :: "string \<Rightarrow> string + string option"
  create_calendar_event :: "string \<Rightarrow> string + string"

definition execute_calendar_action ::
  "calendar_handler \<Rightarrow> action_info \<Rightarrow> string \<Rightarrow> calendar_result \<times> calendar_call list" where
  "execute_calendar_action h action user_message =
     (if \<not> handler_set h \<or> \<not> is_authenticated h then (Calendar_not_available, [])
      else case action of
        Clear_all confirmed \<Rightarrow>
          (if confirmed then
             (case clear_all_events h of
                Inl e \<Rightarrow> (Error_performing_calendar_action e, [Call_clear_all_events])
              | Inr r \<Rightarrow> (Calendar_cleared r, [Call_clear_all_events]))
           else (Clear_all_confirmation_request, []))
      | Delete_pattern pattern \<Rightarrow>
          (if pattern \<noteq> [] then
             (case delete_events_by_title h pattern of
                Inl e \<Rightarrow> (Error_performing_calendar_action e, [Call_delete_events_by_title pattern])
              | Inr r \<Rightarrow> (Events_deleted r, [Call_delete_events_by_title pattern]))
           else (Please_specify_events, []))
      | Create \<Rightarrow>
          (case parse_meeting_request h user_message of
             Inl e \<Rightarrow> (Error_performing_calendar_action e, [Call_parse_meeting_request user_message])
           | Inr None \<Rightarrow> (Could_not_understand_meeting, [Call_parse_meeting_request user_message])
           | Inr (Some meeting_details) \<Rightarrow>
               (case create_calendar_event h meeting_details of
                  Inl e \<Rightarrow> (Error_performing_calendar_action e,
                            [Call_parse_meeting_request user_message,
                             Call_create_calendar_event meeting_details])
                | Inr r \<Rightarrow> (Event_created r,
                            [Call_parse_meeting_request user_message,
                             Call_create_calendar_event meeting_details])))
      | _ \<Rightarrow> (Unknown_calendar_action, []))"

subsection \<open>The calendar branch of \<open>handle_message\<close> (handlers/ai_chat.py)\<close>

text \<open>
  \<open>execute_calendar_action\<close> has one caller: \<open>handle_message\<close> runs the calendar
  detector only when the calendar handler is authenticated and executes the action it
  detects. The handler tested there is the singleton that main.py injects into the
  \<open>AIHandler\<close> before polling starts, so in a running bot \<open>handler_set\<close> holds. The
  branch returns \<open>None\<close> when it does not answer the message.
\<close>

definition handle_message_calendar ::
  "calendar_handler \<Rightarrow> string \<Rightarrow> (calendar_result \<times> calendar_call list) option" where
  "handle_message_calendar h user_message =
     (if is_authenticated h then
        (case detect_calendar_action user_message of
           Some calendar_action \<Rightarrow> Some (execute_calendar_action h calendar_action user_message)
         | None \<Rightarrow> None)
      else None)"

section \<open>Clearing the calendar asks for confirmation\<close>

definition clear_my_schedule_yes :: string where
  "clear_my_schedule_yes = ''clear my schedule, yes I'' @ [CHR 0x27] @ ''m sure''"

definition calendar_stub :: "bool \<Rightarrow> bool \<Rightarrow> calendar_handler" where
  "calendar_stub present auth =
     \<lparr>handler_set = present, is_authenticated = auth,
      clear_all_events = Inr ''Cleared 3 events'',
      delete_events_by_title = (\<lambda>p. Inr ''Deleted 1 events''),
      parse_meeting_request = (\<lambda>m. Inr None),
      create_calendar_event = (\<lambda>d. Inr ''Created'')\<rparr>"

text \<open>
  C4: \<open>clear my schedule\<close> is detected as \<open>clear_all\<close> with \<open>confirmed = False\<close>
  and \<open>clear my schedule, yes I'm sure\<close> as \<open>clear_all\<close> with \<open>confirmed = True\<close>.
  Executing an unconfirmed \<open>clear_all\<close> never calls the calendar collaborator, and it
  returns the confirmation request: with the handler set and authenticated
  \<open>execute_calendar_action\<close> does so, and whenever \<open>handle_message\<close> executes an
  unconfirmed \<open>clear_all\<close> that is its answer, with no collaborator call.
\<close>

theorem clear_all_confirmation_safety:
  "detect_calendar_action ''clear my schedule'' = Some (Clear_all False)
   \<and> detect_calendar_action clear_my_schedule_yes = Some (Clear_all True)
   \<and> snd (execute_calendar_action h (Clear_all False) user_message) = []
   \<and> (handler_set h \<and> is_authenticated h \<longrightarrow>
        execute_calendar_action h (Clear_all False) user_message
          = (Clear_all_confirmation_request, []))
   \<and> (handler_set h \<and> detect_calendar_action user_message = Some (Clear_all False)
        \<and> handle_message_calendar h user_message = Some out \<longrightarrow>
        out = (Clear_all_confirmation_request, []))"
proof -
  have a: "detect_calendar_action ''clear my schedule'' = Some (Clear_all False)"
    by code_simp
  have b: "detect_calendar_action clear_my_schedule_yes = Some (Clear_all True)"
    by code_simp
  have c: "snd (execute_calendar_action h (Clear_all False) user_message) = []"
    by (simp add: execute_calendar_action_def)
  have d: "handler_set h \<and> is_authenticated h \<longrightarrow>
        execute_calendar_action h (Clear_all False) user_message
          = (Clear_all_confirmation_request, [])"
    by (simp add: execute_calendar_action_def)
  have e: "handler_set h \<and> detect_calendar_action user_message = Some (Clear_all False)
        \<and> handle_message_calendar h user_message = Some out \<longrightarrow>
        out = (Clear_all_confirmation_request, [])"
    by (auto simp: handle_message_calendar_def execute_calendar_action_def split: if_splits)
  from a b c d e show ?thesis by blast
qed

theorem clear_all_confirmation_safety_witness:
  "handler_set (calendar_stub True True) \<and> is_authenticated (calendar_stub True True)
   \<and> detect_calendar_action ''clear my schedule'' = Some (Clear_all False)
   \<and> handle_message_calendar (calendar_stub True True) ''clear my schedule''
       = Some (Clear_all_confirmation_request, [])"
proof -
  let ?h = "calendar_stub True True"
  let ?out = "execute_calendar_action ?h (Clear_all False) ''clear my schedule''"
  have h1: "handler_set ?h" and h2: "is_authenticated ?h"
    by (simp_all add: calendar_stub_def)
  have det: "detect_calendar_action ''clear my schedule'' = Some (Clear_all False)"
    by code_simp
  from h2 det have run: "handle_message_calendar ?h ''clear my schedule'' = Some ?out"
    by (simp add: handle_message_calendar_def)
  from clear_all_confirmation_safety [of ?h "''clear my schedule''" ?out] h1 det run
  have "?out = (Clear_all_confirmation_request, [])"
    by blast
  with h1 h2 det run show ?thesis
    by simp
qed

section \<open>Persisted documents\<close>

text \<open>
  The three JSON documents (\<open>pending_emails.json\<close>, \<open>pending_reminders.json\<close>,
  \<open>sent_reminders.json\<close>) are read with \<open>os.path.exists\<close>, \<open>open\<close> and
  \<open>json.load\<close>. A document is modelled by what these three calls meet: no file, a file
  that cannot be opened, a file whose text is not JSON, or a file holding a value.
  Exceptions are values of \<open>exn\<close>; a loader returns \<open>Inl e\<close> when \<open>e\<close> leaves it.
\<close>

datatype exn = JSONDecodeError | FileNotFoundError | PermissionError | ValueError

datatype 'a document = Missing | Unreadable | Malformed | Holds 'a

definition path_exists :: "'a document \<Rightarrow> bool" where
  "path_exists d = (d \<noteq> Missing)"

text \<open>\<open>with open(file, 'r') as f: return json.load(f)\<close>\<close>

definition open_json_load :: "'a document \<Rightarrow> exn + 'a" where
  "open_json_load d =
     (case d of
        Missing \<Rightarrow> Inl FileNotFoundError
      | Unreadable \<Rightarrow> Inl PermissionError
      | Malformed \<Rightarrow> Inl JSONDecodeError
      | Holds v \<Rightarrow> Inr v)"

text \<open>
  \<open>try: ... except (JSONDecodeError, FileNotFoundError): pass\<close> followed by the
  fall-through \<open>return {}\<close>: the listed exceptions are replaced by the default, every other
  exception leaves the function.
\<close>

definition except_pass :: "exn list \<Rightarrow> 'a \<Rightarrow> exn + 'a \<Rightarrow> exn + 'a" where
  "except_pass caught fallback r =
     (case r of Inr v \<Rightarrow> Inr v | Inl e \<Rightarrow> if e \<in> set caught then Inr fallback else Inl e)"

definition load_pending :: "('k \<times> 'v) list document \<Rightarrow> exn + ('k \<times> 'v) list" where
  "load_pending file =
     (if path_exists file
      then except_pass [JSONDecodeError, FileNotFoundError] [] (open_json_load file)
      else Inr [])"

text \<open>
  \<open>EmailService.load_pending_emails\<close> and \<open>ReminderService.load_pending_reminders\<close>
  are the same code on two files; \<open>CalendarHandler.load_sent_reminders\<close> has no
  \<open>try\<close>.
\<close>

definition load_sent_reminders :: "string list document \<Rightarrow> exn + string set" where
  "load_sent_reminders file =
     (if path_exists file
      then (case open_json_load file of Inl e \<Rightarrow> Inl e | Inr v \<Rightarrow> Inr (set v))
      else Inr {})"

lemma load_pending_malformed: "load_pending Malformed = Inr []"
  by (simp add: load_pending_def path_exists_def open_json_load_def except_pass_def)

lemma load_pending_missing: "load_pending Missing = Inr []"
  by (simp add: load_pending_def path_exists_def)

lemma load_pending_unreadable: "load_pending Unreadable = Inl PermissionError"
  by (simp add: load_pending_def path_exists_def open_json_load_def except_pass_def)

text \<open>
  C8: a malformed \<open>sent_reminders.json\<close> does not load as the empty set; the
  \<open>JSONDecodeError\<close> of \<open>json.load\<close> leaves \<open>load_sent_reminders\<close>, which the
  constructor of \<open>CalendarHandler\<close> calls. The two pending-work loaders catch it
  (\<open>load_pending_malformed\<close>).
\<close>

theorem load_sent_reminders_malformed_raises:
  "load_sent_reminders Malformed = Inl JSONDecodeError"
  by (simp add: load_sent_reminders_def path_exists_def open_json_load_def)

section \<open>Time\<close>

text \<open>
  A \<open>datetime\<close> in the one timezone of the assistant (Asia/Phnom_Penh, UTC+7, no
  daylight saving), so that aware datetimes compare as their fields do.
\<close>

record datetime =
  year :: int
  month :: int
  day :: int
  hour :: int
  minute :: int
  second :: int
  microsecond :: int

definition dt_fields :: "datetime \<Rightarrow> int list" where
  "dt_fields d = [year d, month d, day d, hour d, minute d, second d, microsecond d]"

fun lex_less :: "int list \<Rightarrow> int list \<Rightarrow> bool" where
  "lex_less [] ys = (ys \<noteq> [])"
| "lex_less (x # xs) [] = False"
| "lex_less (x # xs) (y # ys) = (x < y \<or> (x = y \<and> lex_less xs ys))"

definition dt_less :: "datetime \<Rightarrow> datetime \<Rightarrow> bool" where
  "dt_less a b = lex_less (dt_fields a) (dt_fields b)"

definition dt_le :: "datetime \<Rightarrow> datetime \<Rightarrow> bool" where
  "dt_le a b = (\<not> dt_less b a)"

text \<open>\<open>str(n)\<close> for an integer.\<close>

fun str_nat :: "nat \<Rightarrow> string" where
  "str_nat n = (if n < 10 then [ascii_digit ! n] else str_nat (n div 10) @ [ascii_digit ! (n mod 10)])"

definition str_int :: "int \<Rightarrow> string" where
  "str_int i = (if i < 0 then CHR ''-'' # str_nat (nat (- i)) else str_nat (nat i))"

text \<open>
  \<open>int(datetime.now().timestamp())\<close>: the POSIX timestamp is given in microseconds,
  \<open>int\<close> truncates towards zero.
\<close>

definition int_timestamp :: "int \<Rightarrow> int" where
  "int_timestamp us = (if 0 \<le> us then us div 1000000 else - ((- us) div 1000000))"

text \<open>The two readings of the clock that \<open>save_pending_*\<close> makes.\<close>

record clock =
  posix_us :: int
  local_now :: datetime

section \<open>The deferred-work store\<close>

datatype status = Pending | Sent | Failed | Cancelled

text \<open>
  The payload the text oracle extracted (\<open>parse_email_request\<close>), and the record
  \<open>save_pending_email\<close> writes. \<open>scheduled_time\<close> and \<open>created_time\<close> are kept as
  datetimes: the document stores \<open>isoformat()\<close> and the tick reads it back with
  \<open>fromisoformat\<close>. A document is an association list: a Python dict keeps insertion
  order, and assigning to a key that is present replaces its value in place.
\<close>

record email_data =
  recipient_email :: string
  subject :: string
  body :: string
  send_time :: string
  priority :: "string option"

record email_record =
  email_id :: string
  recipient :: string
  email_subject :: string
  email_body :: string
  email_priority :: string
  scheduled_time :: datetime
  created_time :: datetime
  email_status :: status
  sent_time :: "datetime option"
  error :: "string option"

type_synonym pending_emails = "(string \<times> email_record) list"

definition get_priority :: "string option \<Rightarrow> string" where
  "get_priority p = (case p of Some v \<Rightarrow> v | None \<Rightarrow> ''normal'')"

definition save_pending_email ::
  "clock \<Rightarrow> pending_emails document \<Rightarrow> email_data \<Rightarrow> datetime \<Rightarrow> exn + (string \<times> pending_emails)" where
  "save_pending_email clk file data sched =
     (let new_id = ''email_'' @ str_int (int_timestamp (posix_us clk));
          email_rec = \<lparr>email_id = new_id, recipient = recipient_email data,
                       email_subject = subject data, email_body = body data,
                       email_priority = get_priority (priority data),
                       scheduled_time = sched, created_time = local_now clk,
                       email_status = Pending, sent_time = None, error = None\<rparr>
      in case load_pending file of
           Inl e \<Rightarrow> Inl e
         | Inr pending \<Rightarrow> Inr (new_id, AList.update new_id email_rec pending))"

record reminder_data =
  reminder_text :: string
  remind_time :: string
  reminder_priority :: "string option"

record reminder_record =
  reminder_id :: string
  rec_reminder_text :: string
  rec_priority :: string
  rec_scheduled_time :: datetime
  rec_created_time :: datetime
  reminder_status :: status
  rec_sent_time :: "datetime option"

type_synonym pending_reminders = "(string \<times> reminder_record) list"

definition save_pending_reminder ::
  "clock \<Rightarrow> pending_reminders document \<Rightarrow> reminder_data \<Rightarrow> datetime
     \<Rightarrow> exn + (string \<times> pending_reminders)" where
  "save_pending_reminder clk file data sched =
     (let new_id = ''reminder_'' @ str_int (int_timestamp (posix_us clk));
          reminder_rec = \<lparr>reminder_id = new_id, rec_reminder_text = reminder_text data,
                          rec_priority = get_priority (reminder_priority data),
                          rec_scheduled_time = sched, rec_created_time = local_now clk,
                          reminder_status = Pending, rec_sent_time = None\<rparr>
      in case load_pending file of
           Inl e \<Rightarrow> Inl e
         | Inr pending \<Rightarrow> Inr (new_id, AList.update new_id reminder_rec pending))"

subsection \<open>Two inserts within one second\<close>

definition t_0900 :: datetime where
  "t_0900 = \<lparr>year = 2023, month = 11, day = 15, hour = 9, minute = 0, second = 0, microsecond = 0\<rparr>"

definition t_0513a :: datetime where
  "t_0513a = \<lparr>year = 2023, month = 11, day = 15, hour = 5, minute = 13, second = 20,
              microsecond = 200000\<rparr>"

definition t_0513b :: datetime where
  "t_0513b = \<lparr>year = 2023, month = 11, day = 15, hour = 5, minute = 13, second = 20,
              microsecond = 700000\<rparr>"

definition mail_a :: email_data where
  "mail_a = \<lparr>recipient_email = ''a@b.com'', subject = ''first'', body = ''one'',
             send_time = ''2023-11-15 09:00'', priority = None\<rparr>"

definition mail_b :: email_data where
  "mail_b = \<lparr>recipient_email = ''c@d.org'', subject = ''second'', body = ''two'',
             send_time = ''2023-11-15 09:00'', priority = None\<rparr>"

definition first_save :: "exn + (string \<times> pending_emails)" where
  "first_save =
     save_pending_email \<lparr>posix_us = 1700000000200000, local_now = t_0513a\<rparr> Missing mail_a t_0900"

definition second_save :: "exn + (string \<times> pending_emails)" where
  "second_save =
     (case first_save of
        Inl e \<Rightarrow> Inl e
      | Inr (i, written) \<Rightarrow>
          save_pending_email \<lparr>posix_us = 1700000000700000, local_now = t_0513b\<rparr>
            (Holds written) mail_b t_0900)"

text \<open>
  C9: two calls of \<open>save_pending_email\<close> half a second apart get the same id, and the
  document written by the second call holds one record, the second one: the first email is
  lost. \<open>save_pending_reminder\<close> builds its id the same way.
\<close>

theorem same_second_saves_collide:
  "map_sum id fst first_save = Inr ''email_1700000000''
   \<and> map_sum id fst second_save = Inr ''email_1700000000''
   \<and> map_sum id (map (\<lambda>kv. (fst kv, email_subject (snd kv))) \<circ> snd) second_save
       = Inr [(''email_1700000000'', ''second'')]"
  by (simp add: first_save_def second_save_def save_pending_email_def load_pending_def
      path_exists_def open_json_load_def except_pass_def int_timestamp_def str_int_def
      ascii_digit_def mail_a_def mail_b_def Let_def)

section \<open>Scheduler ticks\<close>

subsection \<open>\<open>EmailService.send_email_now\<close>\<close>

text \<open>
  The SMTP transport answers \<open>None\<close> when the message was handed over and \<open>Some e\<close>
  when it raised an exception with text \<open>e\<close>; \<open>send_email_now\<close> catches it and
  always returns a result dict.
\<close>

record send_result =
  success :: bool
  message :: string

record email_service =
  is_available :: bool
  smtp :: "string \<Rightarrow> string \<Rightarrow> string \<Rightarrow> string option"

definition send_email_now :: "email_service \<Rightarrow> string \<Rightarrow> string \<Rightarrow> string \<Rightarrow> send_result" where
  "send_email_now svc to subj text =
     (if \<not> is_available svc
      then \<lparr>success = False, message = ''Email service not configured or disabled''\<rparr>
      else case smtp svc to subj text of
             None \<Rightarrow> \<lparr>success = True, message = ''Email sent successfully to '' @ to\<rparr>
           | Some e \<Rightarrow> \<lparr>success = False, message = ''Failed to send email: '' @ e\<rparr>)"

subsection \<open>\<open>EmailService.check_and_send_scheduled_emails\<close>\<close>

record sent_email =
  sent_email_id :: string
  sent_recipient :: string
  sent_subject :: string
  result :: send_result

text \<open>
  One iteration of \<open>for email_id, email_data in pending_emails.items()\<close>: the record as
  the iteration leaves it, and the entry appended to \<open>sent_emails\<close>, if any.
\<close>

definition check_email ::
  "email_service \<Rightarrow> datetime \<Rightarrow> string \<Rightarrow> email_record \<Rightarrow> email_record \<times> sent_email list" where
  "check_email svc current_time k e =
     (if email_status e \<noteq> Pending then (e, [])
      else if dt_le (scheduled_time e) current_time then
        (let r = send_email_now svc (recipient e) (email_subject e) (email_body e);
             e' = (if success r
                   then e\<lparr>email_status := Sent, sent_time := Some current_time\<rparr>
                   else e\<lparr>email_status := Failed, error := Some (message r)\<rparr>)
         in (e', [\<lparr>sent_email_id = k, sent_recipient = recipient e,
                    sent_subject = email_subject e, result = r\<rparr>]))
      else (e, []))"

fun check_emails ::
  "email_service \<Rightarrow> datetime \<Rightarrow> pending_emails \<Rightarrow> pending_emails \<times> sent_email list" where
  "check_emails svc current_time [] = ([], [])"
| "check_emails svc current_time ((k, e) # rest) =
     (let (e', sent) = check_email svc current_time k e;
          (rest', sent_rest) = check_emails svc current_time rest
      in ((k, e') # rest', sent @ sent_rest))"

text \<open>
  The tick returns the document as it stands afterwards (rewritten only when something was
  sent) and \<open>sent_emails\<close>, one entry per call of \<open>send_email_now\<close>, in call order.
\<close>

definition check_and_send_scheduled_emails ::
  "email_service \<Rightarrow> datetime \<Rightarrow> pending_emails document
     \<Rightarrow> exn + (pending_emails document \<times> sent_email list)" where
  "check_and_send_scheduled_emails svc current_time file =
     (if \<not> is_available svc then Inr (file, [])
      else case load_pending file of
             Inl e \<Rightarrow> Inl e
           | Inr pending \<Rightarrow>
               (let (pending', sent_emails) = check_emails svc current_time pending
                in Inr (if sent_emails \<noteq> [] then Holds pending' else file, sent_emails)))"

subsection \<open>\<open>ReminderService.check_and_send_scheduled_reminders\<close>\<close>

record reminder_to_send =
  due_reminder_id :: string
  due_reminder_text :: string
  due_priority :: string
  due_scheduled_time :: datetime

definition check_reminder ::
  "datetime \<Rightarrow> string \<Rightarrow> reminder_record \<Rightarrow> reminder_record \<times> reminder_to_send list" where
  "check_reminder current_time k r =
     (if reminder_status r \<noteq> Pending then (r, [])
      else if dt_le (rec_scheduled_time r) current_time then
        (r\<lparr>reminder_status := Sent, rec_sent_time := Some current_time\<rparr>,
         [\<lparr>due_reminder_id = k, due_reminder_text = rec_reminder_text r,
           due_priority = rec_priority r, due_scheduled_time = rec_scheduled_time r\<rparr>])
      else (r, []))"

fun check_reminders ::
  "datetime \<Rightarrow> pending_reminders \<Rightarrow> pending_reminders \<times> reminder_to_send list" where
  "check_reminders current_time [] = ([], [])"
| "check_reminders current_time ((k, r) # rest) =
     (let (r', due) = check_reminder current_time k r;
          (rest', due_rest) = check_reminders current_time rest
      in ((k, r') # rest', due @ due_rest))"

definition check_and_send_scheduled_reminders ::
  "datetime \<Rightarrow> pending_reminders document
     \<Rightarrow> exn + (pending_reminders document \<times> reminder_to_send list)" where
  "check_and_send_scheduled_reminders current_time file =
     (case load_pending file of
        Inl e \<Rightarrow> Inl e
      | Inr pending \<Rightarrow>
          (let (pending', reminders_to_send) = check_reminders current_time pending
           in Inr (if reminders_to_send \<noteq> [] then Holds pending' else file, reminders_to_send)))"

subsection \<open>\<open>ReminderService.cleanup_old_reminders\<close>\<close>

text \<open>
  \<open>cutoff\<close> is \<open>datetime.now(tz) - timedelta(days=7)\<close>, computed by the library. An
  exception of the loader leaves the function.
\<close>

definition old_reminder :: "datetime \<Rightarrow> reminder_record \<Rightarrow> bool" where
  "old_reminder cutoff r =
     (reminder_status r \<in> {Sent, Cancelled} \<and> dt_less (rec_created_time r) cutoff)"

definition cleanup_old_reminders ::
  "datetime \<Rightarrow> pending_reminders document \<Rightarrow> exn + pending_reminders document" where
  "cleanup_old_reminders cutoff file =
     (case load_pending file of
        Inl e \<Rightarrow> Inl e
      | Inr pending \<Rightarrow>
          (if list_ex (\<lambda>kv. old_reminder cutoff (snd kv)) pending
           then Inr (Holds (filter (\<lambda>kv. \<not> old_reminder cutoff (snd kv)) pending))
           else Inr file))"

subsection \<open>\<open>send_scheduled_reminders\<close> (handlers/scheduled_tasks.py)\<close>

text \<open>
  \<open>bot_send_message text\<close> says whether \<open>application.bot.send_message\<close> delivered the
  reminder with this text (\<open>False\<close>: it raised; the loop logs the error and goes on). The
  tick returns the document afterwards and, for every reminder it tried to deliver, its id
  and whether the delivery succeeded, in order. An exception of the service is caught by the
  outer \<open>try\<close> and ends the tick.
\<close>

record reminder_tick =
  user_chat_id :: "string option"
  bot_send_message :: "string \<Rightarrow> bool"
  tick_time :: datetime
  cleanup_cutoff :: datetime

definition send_scheduled_reminders ::
  "reminder_tick \<Rightarrow> pending_reminders document
     \<Rightarrow> pending_reminders document \<times> (string \<times> bool) list" where
  "send_scheduled_reminders t file =
     (if user_chat_id t = None then (file, [])
      else case check_and_send_scheduled_reminders (tick_time t) file of
             Inl e \<Rightarrow> (file, [])
           | Inr (file', reminders_to_send) \<Rightarrow>
               (let deliveries =
                      map (\<lambda>d. (due_reminder_id d, bot_send_message t (due_reminder_text d)))
                        reminders_to_send
                in if reminders_to_send \<noteq> []
                   then (case cleanup_old_reminders (cleanup_cutoff t) file' of
                           Inl e \<Rightarrow> (file', deliveries)
                         | Inr file'' \<Rightarrow> (file'', deliveries))
                   else (file', deliveries)))"

subsection \<open>The loops, item by item\<close>

lemma concat_map_if:
  "concat (map (\<lambda>x. if P x then [f x] else []) xs) = map f (filter P xs)"
  by (induction xs) auto

lemma check_emails_map:
  "check_emails svc now pending =
     (map (\<lambda>kv. (fst kv, fst (check_email svc now (fst kv) (snd kv)))) pending,
      concat (map (\<lambda>kv. snd (check_email svc now (fst kv) (snd kv))) pending))"
  by (induction pending) (auto split: prod.splits)

lemma check_reminders_map:
  "check_reminders now pending =
     (map (\<lambda>kv. (fst kv, fst (check_reminder now (fst kv) (snd kv)))) pending,
      concat (map (\<lambda>kv. snd (check_reminder now (fst kv) (snd kv))) pending))"
  by (induction pending) (auto split: prod.splits)

lemma check_email_due:
  assumes "email_status e = Pending" and "dt_le (scheduled_time e) now"
  shows "snd (check_email svc now k e) =
           [\<lparr>sent_email_id = k, sent_recipient = recipient e, sent_subject = email_subject e,
             result = send_email_now svc (recipient e) (email_subject e) (email_body e)\<rparr>]"
    and "email_status (fst (check_email svc now k e)) =
           (if success (send_email_now svc (recipient e) (email_subject e) (email_body e))
            then Sent else Failed)"
  using assms by (simp_all add: check_email_def Let_def)

lemma check_reminder_due:
  assumes "reminder_status r = Pending" and "dt_le (rec_scheduled_time r) now"
  shows "snd (check_reminder now k r) =
           [\<lparr>due_reminder_id = k, due_reminder_text = rec_reminder_text r,
             due_priority = rec_priority r, due_scheduled_time = rec_scheduled_time r\<rparr>]"
    and "reminder_status (fst (check_reminder now k r)) = Sent"
  using assms by (simp_all add: check_reminder_def)

lemma check_email_ids:
  "map sent_email_id (snd (check_email svc now k e)) =
     (if email_status e = Pending \<and> dt_le (scheduled_time e) now then [k] else [])"
  by (simp add: check_email_def Let_def)

lemma check_reminder_ids:
  "map due_reminder_id (snd (check_reminder now k r)) =
     (if reminder_status r = Pending \<and> dt_le (rec_scheduled_time r) now then [k] else [])"
  by (simp add: check_reminder_def)

lemma check_emails_ids:
  "map sent_email_id (snd (check_emails svc now pending)) =
     map fst (filter (\<lambda>kv. email_status (snd kv) = Pending \<and> dt_le (scheduled_time (snd kv)) now)
                pending)"
  by (simp add: check_emails_map map_concat comp_def check_email_ids concat_map_if)

lemma check_reminders_ids:
  "map due_reminder_id (snd (check_reminders now pending)) =
     map fst (filter (\<lambda>kv. reminder_status (snd kv) = Pending
                            \<and> dt_le (rec_scheduled_time (snd kv)) now) pending)"
  by (simp add: check_reminders_map map_concat comp_def check_reminder_ids concat_map_if)

lemma load_pending_holds: "load_pending (Holds pending) = Inr pending"
  by (simp add: load_pending_def path_exists_def open_json_load_def except_pass_def)

lemma emails_tick_holds:
  assumes "is_available svc"
  shows "check_and_send_scheduled_emails svc now (Holds pending) =
           Inr (if snd (check_emails svc now pending) \<noteq> []
                then Holds (fst (check_emails svc now pending)) else Holds pending,
                snd (check_emails svc now pending))"
  using assms
  by (simp add: check_and_send_scheduled_emails_def load_pending_holds split: prod.splits)

lemma reminders_tick_holds:
  "check_and_send_scheduled_reminders now (Holds pending) =
     Inr (if snd (check_reminders now pending) \<noteq> []
          then Holds (fst (check_reminders now pending)) else Holds pending,
          snd (check_reminders now pending))"
  by (simp add: check_and_send_scheduled_reminders_def load_pending_holds split: prod.splits)

lemma cleanup_holds:
  "cleanup_old_reminders cutoff (Holds pending) =
     Inr (Holds (if list_ex (\<lambda>kv. old_reminder cutoff (snd kv)) pending
                 then filter (\<lambda>kv. \<not> old_reminder cutoff (snd kv)) pending else pending))"
  by (simp add: cleanup_old_reminders_def load_pending_holds)

lemma reminder_deliveries:
  assumes "user_chat_id t \<noteq> None"
  shows "snd (send_scheduled_reminders t (Holds rpending)) =
           map (\<lambda>d. (due_reminder_id d, bot_send_message t (due_reminder_text d)))
             (snd (check_reminders (tick_time t) rpending))"
  using assms
  by (simp add: send_scheduled_reminders_def reminders_tick_holds cleanup_holds Let_def)

lemma reminder_document:
  assumes "user_chat_id t \<noteq> None" and "snd (check_reminders (tick_time t) rpending) \<noteq> []"
  shows "\<exists>doc. fst (send_scheduled_reminders t (Holds rpending)) = Holds doc
           \<and> set doc \<subseteq> set (fst (check_reminders (tick_time t) rpending))"
  using assms
  by (auto simp: send_scheduled_reminders_def reminders_tick_holds cleanup_holds Let_def)

section \<open>Order of processing within a tick\<close>

definition mail_ok :: email_service where
  "mail_ok = \<lparr>is_available = True, smtp = (\<lambda>to subj text. None)\<rparr>"

definition pending_email :: "string \<Rightarrow> datetime \<Rightarrow> email_record" where
  "pending_email k sched =
     \<lparr>email_id = k, recipient = ''a@b.com'', email_subject = ''hello'', email_body = ''text'',
      email_priority = ''normal'', scheduled_time = sched, created_time = t_0513a,
      email_status = Pending, sent_time = None, error = None\<rparr>"

definition t_1000 :: datetime where
  "t_1000 = \<lparr>year = 2023, month = 11, day = 15, hour = 10, minute = 0, second = 0, microsecond = 0\<rparr>"

definition t_1100 :: datetime where
  "t_1100 = \<lparr>year = 2023, month = 11, day = 15, hour = 11, minute = 0, second = 0, microsecond = 0\<rparr>"

definition late_then_early :: pending_emails where
  "late_then_early =
     [(''email_1700000000'', pending_email ''email_1700000000'' t_1000),
      (''email_1700000050'', pending_email ''email_1700000050'' t_0900)]"

text \<open>
  C6, as stated, fails: the tick iterates over \<open>pending_emails.items()\<close>, the document in
  insertion order. With the 10:00 email inserted before the 09:00 email and both due at
  11:00, the 10:00 email is sent first.
\<close>

theorem tick_sends_later_item_first:
  "map_sum id (map sent_email_id \<circ> snd)
     (check_and_send_scheduled_emails mail_ok t_1100 (Holds late_then_early))
     = Inr [''email_1700000000'', ''email_1700000050'']
   \<and> map (scheduled_time \<circ> snd) late_then_early = [t_1000, t_0900]
   \<and> dt_less t_0900 t_1000"
  by (simp add: check_and_send_scheduled_emails_def load_pending_holds late_then_early_def
      check_email_def pending_email_def mail_ok_def send_email_now_def dt_le_def dt_less_def
      dt_fields_def t_0900_def t_1000_def t_1100_def Let_def)

text \<open>
  C6 (amended): within one tick the due items are processed in the order in which the
  document holds them (insertion order), whatever their scheduled times: the ids processed
  are the ids of the pending due items of the document, in document order. This holds for
  the email tick and for the reminder tick.
\<close>

theorem tick_processes_in_document_order:
  "(is_available svc \<longrightarrow>
      map_sum id (map sent_email_id \<circ> snd)
        (check_and_send_scheduled_emails svc now (Holds pending))
      = Inr (map fst (filter (\<lambda>kv. email_status (snd kv) = Pending
                                    \<and> dt_le (scheduled_time (snd kv)) now) pending)))
   \<and> map_sum id (map due_reminder_id \<circ> snd)
        (check_and_send_scheduled_reminders now (Holds rpending))
      = Inr (map fst (filter (\<lambda>kv. reminder_status (snd kv) = Pending
                                    \<and> dt_le (rec_scheduled_time (snd kv)) now) rpending))"
  by (simp add: emails_tick_holds reminders_tick_holds check_emails_ids check_reminders_ids)

theorem tick_processes_in_document_order_witness:
  "is_available mail_ok
   \<and> map_sum id (map sent_email_id \<circ> snd)
       (check_and_send_scheduled_emails mail_ok t_1100 (Holds late_then_early))
     = Inr [''email_1700000000'', ''email_1700000050'']"
  using tick_processes_in_document_order [of mail_ok t_1100 late_then_early "[]"]
  by (simp add: late_then_early_def pending_email_def mail_ok_def dt_le_def dt_less_def
      dt_fields_def t_0900_def t_1000_def t_1100_def)

section \<open>Status after a tick\<close>

definition t_0901 :: datetime where
  "t_0901 = \<lparr>year = 2023, month = 11, day = 15, hour = 9, minute = 1, second = 0, microsecond = 0\<rparr>"

definition t_cutoff :: datetime where
  "t_cutoff = \<lparr>year = 2023, month = 11, day = 8, hour = 9, minute = 1, second = 0, microsecond = 0\<rparr>"

definition call_mom :: reminder_record where
  "call_mom =
     \<lparr>reminder_id = ''reminder_1700000000'', rec_reminder_text = ''call mom'',
      rec_priority = ''normal'', rec_scheduled_time = t_0900, rec_created_time = t_0513a,
      reminder_status = Pending, rec_sent_time = None\<rparr>"

definition telegram_down :: reminder_tick where
  "telegram_down =
     \<lparr>user_chat_id = Some ''42'', bot_send_message = (\<lambda>text. False),
      tick_time = t_0901, cleanup_cutoff = t_cutoff\<rparr>"

text \<open>
  C2, as stated, fails for reminders: \<open>check_and_send_scheduled_reminders\<close> marks a due
  reminder \<open>sent\<close> before \<open>send_scheduled_reminders\<close> tries to deliver it, and a delivery
  that raises is only logged. Here the delivery fails and the persisted status is
  \<open>Sent\<close>, not \<open>Failed\<close>.
\<close>

theorem failed_reminder_delivery_marked_sent:
  "send_scheduled_reminders telegram_down (Holds [(''reminder_1700000000'', call_mom)])
     = (Holds [(''reminder_1700000000'',
                call_mom\<lparr>reminder_status := Sent, rec_sent_time := Some t_0901\<rparr>)],
        [(''reminder_1700000000'', False)])"
  by (simp add: send_scheduled_reminders_def check_and_send_scheduled_reminders_def
      cleanup_old_reminders_def old_reminder_def load_pending_holds check_reminder_def
      telegram_down_def call_mom_def dt_le_def dt_less_def dt_fields_def t_0900_def
      t_0901_def t_0513a_def t_cutoff_def)

text \<open>
  C2 (amended): an email tick calls \<open>send_email_now\<close> for every pending email whose
  \<open>scheduled_time\<close> is at most the tick's current time and sets its status to \<open>Sent\<close>
  exactly when the send succeeded and to \<open>Failed\<close> exactly when it did not. A reminder
  tick marks every pending reminder whose \<open>scheduled_time\<close> is at most the current time
  \<open>Sent\<close> before delivering it, then attempts the delivery; whatever the delivery's
  outcome, the records of the document afterwards are records of the marked document, so
  the reminder is never marked \<open>Failed\<close>.
\<close>

theorem tick_status_after_execution:
  "(is_available svc \<and> i < length pending \<and> pending ! i = (k, e)
      \<and> email_status e = Pending \<and> dt_le (scheduled_time e) now \<longrightarrow>
      (\<exists>pending' sent e'.
          check_and_send_scheduled_emails svc now (Holds pending) = Inr (Holds pending', sent)
          \<and> pending' ! i = (k, e')
          \<and> \<lparr>sent_email_id = k, sent_recipient = recipient e, sent_subject = email_subject e,
              result = send_email_now svc (recipient e) (email_subject e) (email_body e)\<rparr>
             \<in> set sent
          \<and> (email_status e' = Sent
               \<longleftrightarrow> success (send_email_now svc (recipient e) (email_subject e) (email_body e)))
          \<and> (email_status e' = Failed
               \<longleftrightarrow> \<not> success (send_email_now svc (recipient e) (email_subject e) (email_body e)))))
   \<and> (user_chat_id t \<noteq> None \<and> j < length rpending \<and> rpending ! j = (rk, r)
      \<and> reminder_status r = Pending \<and> dt_le (rec_scheduled_time r) (tick_time t) \<longrightarrow>
      (\<exists>marked due r'.
          check_and_send_scheduled_reminders (tick_time t) (Holds rpending)
            = Inr (Holds marked, due)
          \<and> marked ! j = (rk, r') \<and> reminder_status r' = Sent
          \<and> (rk, bot_send_message t (rec_reminder_text r))
             \<in> set (snd (send_scheduled_reminders t (Holds rpending)))
          \<and> (\<exists>doc. fst (send_scheduled_reminders t (Holds rpending)) = Holds doc
                    \<and> set doc \<subseteq> set marked)))"
proof (intro conjI impI)
  assume a: "is_available svc \<and> i < length pending \<and> pending ! i = (k, e)
      \<and> email_status e = Pending \<and> dt_le (scheduled_time e) now"
  let ?r = "send_email_now svc (recipient e) (email_subject e) (email_body e)"
  let ?entry = "\<lparr>sent_email_id = k, sent_recipient = recipient e,
                  sent_subject = email_subject e, result = ?r\<rparr>"
  let ?out = "check_emails svc now pending"
  from a have mem: "(k, e) \<in> set pending"
    by (metis nth_mem)
  from a have one: "snd (check_email svc now k e) = [?entry]"
    by (simp add: check_email_due)
  from mem one have entry: "?entry \<in> set (snd ?out)"
    by (force simp: check_emails_map)
  then have ne: "snd ?out \<noteq> []"
    by auto
  from a ne have run: "check_and_send_scheduled_emails svc now (Holds pending)
      = Inr (Holds (fst ?out), snd ?out)"
    by (simp add: emails_tick_holds)
  from a have at: "fst ?out ! i = (k, fst (check_email svc now k e))"
    by (simp add: check_emails_map)
  from a have st: "email_status (fst (check_email svc now k e)) = (if success ?r then Sent else Failed)"
    by (simp add: check_email_due)
  from run at entry st
  show "\<exists>pending' sent e'.
          check_and_send_scheduled_emails svc now (Holds pending) = Inr (Holds pending', sent)
          \<and> pending' ! i = (k, e') \<and> ?entry \<in> set sent
          \<and> (email_status e' = Sent \<longleftrightarrow> success ?r)
          \<and> (email_status e' = Failed \<longleftrightarrow> \<not> success ?r)"
    by (intro exI [of _ "fst ?out"] exI [of _ "snd ?out"]
        exI [of _ "fst (check_email svc now k e)"]) simp
next
  assume b: "user_chat_id t \<noteq> None \<and> j < length rpending \<and> rpending ! j = (rk, r)
      \<and> reminder_status r = Pending \<and> dt_le (rec_scheduled_time r) (tick_time t)"
  let ?now = "tick_time t"
  let ?out = "check_reminders ?now rpending"
  let ?due = "\<lparr>due_reminder_id = rk, due_reminder_text = rec_reminder_text r,
                due_priority = rec_priority r, due_scheduled_time = rec_scheduled_time r\<rparr>"
  from b have mem: "(rk, r) \<in> set rpending"
    by (metis nth_mem)
  from b have one: "snd (check_reminder ?now rk r) = [?due]"
    by (simp add: check_reminder_due)
  from mem one have due: "?due \<in> set (snd ?out)"
    by (force simp: check_reminders_map)
  then have ne: "snd ?out \<noteq> []"
    by auto
  from ne have run: "check_and_send_scheduled_reminders ?now (Holds rpending)
      = Inr (Holds (fst ?out), snd ?out)"
    by (simp add: reminders_tick_holds)
  from b have at: "fst ?out ! j = (rk, fst (check_reminder ?now rk r))"
    by (simp add: check_reminders_map)
  from b have st: "reminder_status (fst (check_reminder ?now rk r)) = Sent"
    by (simp add: check_reminder_due)
  from due have "(due_reminder_id ?due, bot_send_message t (due_reminder_text ?due))
      \<in> (\<lambda>d. (due_reminder_id d, bot_send_message t (due_reminder_text d))) ` set (snd ?out)"
    by (rule imageI)
  with b have del: "(rk, bot_send_message t (rec_reminder_text r))
      \<in> set (snd (send_scheduled_reminders t (Holds rpending)))"
    by (simp add: reminder_deliveries)
  from b ne have doc: "\<exists>doc. fst (send_scheduled_reminders t (Holds rpending)) = Holds doc
      \<and> set doc \<subseteq> set (fst ?out)"
    by (simp add: reminder_document)
  from run at st del doc
  show "\<exists>marked due r'.
          check_and_send_scheduled_reminders ?now (Holds rpending) = Inr (Holds marked, due)
          \<and> marked ! j = (rk, r') \<and> reminder_status r' = Sent
          \<and> (rk, bot_send_message t (rec_reminder_text r))
             \<in> set (snd (send_scheduled_reminders t (Holds rpending)))
          \<and> (\<exists>doc. fst (send_scheduled_reminders t (Holds rpending)) = Holds doc
                    \<and> set doc \<subseteq> set marked)"
    by (intro exI [of _ "fst ?out"] exI [of _ "snd ?out"]
        exI [of _ "fst (check_reminder ?now rk r)"]) simp
qed

theorem tick_status_after_execution_witness:
  "(\<exists>pending' sent e'.
      check_and_send_scheduled_emails mail_ok t_1100 (Holds late_then_early)
        = Inr (Holds pending', sent)
      \<and> pending' ! 0 = (''email_1700000000'', e') \<and> email_status e' = Sent)
   \<and> (\<exists>marked due r'.
      check_and_send_scheduled_reminders t_0901 (Holds [(''reminder_1700000000'', call_mom)])
        = Inr (Holds marked, due)
      \<and> marked ! 0 = (''reminder_1700000000'', r') \<and> reminder_status r' = Sent
      \<and> (''reminder_1700000000'', False)
         \<in> set (snd (send_scheduled_reminders telegram_down
                        (Holds [(''reminder_1700000000'', call_mom)]))))"
proof -
  let ?e = "pending_email ''email_1700000000'' t_1000"
  let ?doc = "[(''reminder_1700000000'', call_mom)]"
  have h1: "is_available mail_ok \<and> 0 < length late_then_early
      \<and> late_then_early ! 0 = (''email_1700000000'', ?e)
      \<and> email_status ?e = Pending \<and> dt_le (scheduled_time ?e) t_1100"
    by (simp add: mail_ok_def late_then_early_def pending_email_def dt_le_def dt_less_def
        dt_fields_def t_1000_def t_1100_def)
  have h2: "user_chat_id telegram_down \<noteq> None \<and> 0 < length ?doc
      \<and> ?doc ! 0 = (''reminder_1700000000'', call_mom)
      \<and> reminder_status call_mom = Pending
      \<and> dt_le (rec_scheduled_time call_mom) (tick_time telegram_down)"
    by (simp add: telegram_down_def call_mom_def dt_le_def dt_less_def dt_fields_def
        t_0900_def t_0901_def)
  have ok: "success (send_email_now mail_ok (recipient ?e) (email_subject ?e) (email_body ?e))"
    by (simp add: send_email_now_def mail_ok_def)
  have down: "bot_send_message telegram_down (rec_reminder_text call_mom) = False"
    and now: "tick_time telegram_down = t_0901"
    by (simp_all add: telegram_down_def)
  note inst = tick_status_after_execution
    [where svc = mail_ok and i = 0 and pending = late_then_early
       and k = "''email_1700000000''" and e = ?e and now = t_1100
       and t = telegram_down and j = 0 and rpending = ?doc
       and rk = "''reminder_1700000000''" and r = call_mom]
  from inst h1 ok obtain pending' sent e' where
    "check_and_send_scheduled_emails mail_ok t_1100 (Holds late_then_early)
       = Inr (Holds pending', sent)"
    "pending' ! 0 = (''email_1700000000'', e')" "email_status e' = Sent"
    by blast
  moreover from inst h2 down now obtain marked due r' where
    "check_and_send_scheduled_reminders t_0901 (Holds ?doc) = Inr (Holds marked, due)"
    "marked ! 0 = (''reminder_1700000000'', r')" "reminder_status r' = Sent"
    "(''reminder_1700000000'', False)
       \<in> set (snd (send_scheduled_reminders telegram_down (Holds ?doc)))"
    by metis
  ultimately show ?thesis
    by blast
qed

section \<open>Resolving the requested time\<close>

text \<open>
  \<open>str.strip()\<close> removes the whitespace characters at both ends.
\<close>

definition py_space :: "char list" where
  "py_space = [CHR 0x09, CHR 0x0A, CHR 0x0B, CHR 0x0C, CHR 0x0D, CHR 0x1C, CHR 0x1D,
               CHR 0x1E, CHR 0x1F, CHR 0x20, CHR 0x85, CHR 0xA0]"

definition strip :: "string \<Rightarrow> string" where
  "strip s = rev (dropWhile (\<lambda>c. c \<in> set py_space) (rev (dropWhile (\<lambda>c. c \<in> set py_space) s)))"

text \<open>
  \<open>datetime.strptime\<close> belongs to the library, not to the repository; it is a parameter
  \<open>strptime fmt text\<close>, \<open>None\<close> standing for its \<open>ValueError\<close>. \<open>localize\<close> attaches
  the fixed timezone and changes no field.
\<close>

type_synonym strptime = "string \<Rightarrow> string \<Rightarrow> datetime option"

definition formats_to_try :: "string list" where
  "formats_to_try =
     [''%Y-%m-%d %I:%M %p'', ''%Y-%m-%d %H:%M:%S'', ''%m/%d/%Y %H:%M'',
      ''%m/%d/%Y %I:%M %p'', ''%B %d, %Y %H:%M'', ''%B %d, %Y %I:%M %p'']"

fun try_formats :: "strptime \<Rightarrow> string list \<Rightarrow> string \<Rightarrow> datetime option" where
  "try_formats sp [] text = None"
| "try_formats sp (fmt # fmts) text =
     (case sp fmt text of Some dt \<Rightarrow> Some dt | None \<Rightarrow> try_formats sp fmts text)"

text \<open>\<open>datetime.combine(today, time_part)\<close>: the date of one, the time of the other.\<close>

definition combine :: "datetime \<Rightarrow> datetime \<Rightarrow> datetime" where
  "combine today time_part = time_part\<lparr>year := year today, month := month today, day := day today\<rparr>"

definition parse_send_time :: "strptime \<Rightarrow> datetime \<Rightarrow> string \<Rightarrow> datetime option" where
  "parse_send_time sp now send_time_str =
     (if send_time_str = [] \<or> lower send_time_str = ''now'' then Some now
      else
        let text = strip send_time_str;
            full = (if length text = 16 \<and> CHR '' '' \<in> set text
                    then sp ''%Y-%m-%d %H:%M'' text else None);
            date_only = (if length text = 10 \<and> CHR ''-'' \<in> set text
                         then map_option (\<lambda>dt. dt\<lparr>hour := 12\<rparr>) (sp ''%Y-%m-%d'' text)
                         else None);
            time_only = (if CHR '':'' \<in> set text \<and> length text \<le> 5
                         then map_option (combine now) (sp ''%H:%M'' text) else None)
        in case full of
             Some dt \<Rightarrow> Some dt
           | None \<Rightarrow>
               (case date_only of
                  Some dt \<Rightarrow> Some dt
                | None \<Rightarrow>
                    (case time_only of
                       Some dt \<Rightarrow> Some dt
                     | None \<Rightarrow> try_formats sp formats_to_try text)))"

text \<open>\<open>ReminderService.parse_remind_time\<close> is the same code, line by line.\<close>

definition parse_remind_time :: "strptime \<Rightarrow> datetime \<Rightarrow> string \<Rightarrow> datetime option" where
  "parse_remind_time = parse_send_time"

subsection \<open>The same-minute adjustment\<close>

text \<open>
  \<open>dt.replace(second=0, microsecond=0)\<close> cannot fail;
  \<open>dt.replace(minute=m, second=0, microsecond=0)\<close> raises \<open>ValueError\<close> unless
  \<open>0 \<le> m \<le> 59\<close>.
\<close>

definition replace_second_microsecond :: "datetime \<Rightarrow> datetime" where
  "replace_second_microsecond dt = dt\<lparr>second := 0, microsecond := 0\<rparr>"

definition replace_minute :: "datetime \<Rightarrow> int \<Rightarrow> exn + datetime" where
  "replace_minute dt m =
     (if 0 \<le> m \<and> m \<le> 59 then Inr (dt\<lparr>minute := m, second := 0, microsecond := 0\<rparr>)
      else Inl ValueError)"

text \<open>
  The block under \<open># Handle same-minute race condition\<close>, which
  \<open>execute_email_action\<close> and \<open>execute_reminder_action\<close> both contain.
\<close>

definition same_minute_adjust :: "datetime \<Rightarrow> datetime \<Rightarrow> exn + datetime" where
  "same_minute_adjust now requested =
     (let current_minute = replace_second_microsecond now;
          scheduled_minute = replace_second_microsecond requested
      in if scheduled_minute = current_minute
         then replace_minute requested (minute requested + 1)
         else Inr requested)"

section \<open>Dispatch of email and reminder actions\<close>

text \<open>
  What a dispatch meets: the service, the text oracle's extraction
  (\<open>parse_email_request\<close>, \<open>parse_reminder_request\<close>), the library's \<open>strptime\<close>, the
  time \<open>datetime.now(tz)\<close> returns during the dispatch, and the clock readings of a save.
  A dispatch returns the reply, the SMTP sends it made, and the document afterwards. The
  outer \<open>try\<close> turns every exception into an error reply.
\<close>

record world =
  email_svc :: email_service
  parse_email_request :: "string \<Rightarrow> email_data option"
  parse_reminder_request :: "string \<Rightarrow> reminder_data option"
  lib_strptime :: strptime
  current_time :: datetime
  save_clock :: clock

datatype email_reply =
    Email_service_not_configured
  | Could_not_parse_email_request
  | Email_scheduled string datetime
  | Email_sent_successfully
  | Failed_to_send_email string
  | Unknown_email_action
  | Error_performing_email_action exn

definition send_immediately ::
  "world \<Rightarrow> pending_emails document \<Rightarrow> email_data
     \<Rightarrow> email_reply \<times> (string \<times> string \<times> string) list \<times> pending_emails document" where
  "send_immediately w file data =
     (let r = send_email_now (email_svc w) (recipient_email data) (subject data) (body data)
      in (if success r then Email_sent_successfully else Failed_to_send_email (message r),
          [(recipient_email data, subject data, body data)], file))"

definition execute_email_action ::
  "world \<Rightarrow> pending_emails document \<Rightarrow> action_info \<Rightarrow> string
     \<Rightarrow> email_reply \<times> (string \<times> string \<times> string) list \<times> pending_emails document" where
  "execute_email_action w file action user_message =
     (if \<not> is_available (email_svc w) then (Email_service_not_configured, [], file)
      else case action of
        Send_email m \<Rightarrow>
          (case parse_email_request w user_message of
             None \<Rightarrow> (Could_not_parse_email_request, [], file)
           | Some data \<Rightarrow>
               (let send_time_str = send_time data;
                    parsed = (if send_time_str \<noteq> [] \<and> lower send_time_str \<noteq> ''now''
                              then parse_send_time (lib_strptime w) (current_time w) send_time_str
                              else None)
                in case parsed of
                     None \<Rightarrow> send_immediately w file data
                   | Some t \<Rightarrow>
                       (case same_minute_adjust (current_time w) t of
                          Inl e \<Rightarrow> (Error_performing_email_action e, [], file)
                        | Inr t' \<Rightarrow>
                            if dt_less (current_time w) t' then
                              (case save_pending_email (save_clock w) file data t' of
                                 Inl e \<Rightarrow> (Error_performing_email_action e, [], file)
                               | Inr (new_id, pending) \<Rightarrow>
                                   (Email_scheduled new_id t', [], Holds pending))
                            else send_immediately w file data)))
      | _ \<Rightarrow> (Unknown_email_action, [], file))"

datatype reminder_reply =
    Could_not_parse_reminder_request
  | Reminder_set string datetime
  | Immediate_reminder string
  | Unknown_reminder_action
  | Error_executing_reminder_action exn

definition execute_reminder_action ::
  "world \<Rightarrow> pending_reminders document \<Rightarrow> action_info \<Rightarrow> string
     \<Rightarrow> reminder_reply \<times> pending_reminders document" where
  "execute_reminder_action w file action user_message =
     (case action of
        Set_reminder m \<Rightarrow>
          (case parse_reminder_request w user_message of
             None \<Rightarrow> (Could_not_parse_reminder_request, file)
           | Some data \<Rightarrow>
               (let remind_time_str = remind_time data;
                    parsed = (if remind_time_str \<noteq> [] \<and> lower remind_time_str \<noteq> ''now''
                              then parse_remind_time (lib_strptime w) (current_time w) remind_time_str
                              else None)
                in case parsed of
                     None \<Rightarrow> (Immediate_reminder (reminder_text data), file)
                   | Some t \<Rightarrow>
                       (case same_minute_adjust (current_time w) t of
                          Inl e \<Rightarrow> (Error_executing_reminder_action e, file)
                        | Inr t' \<Rightarrow>
                            if dt_less (current_time w) t' then
                              (case save_pending_reminder (save_clock w) file data t' of
                                 Inl e \<Rightarrow> (Error_executing_reminder_action e, file)
                               | Inr (new_id, pending) \<Rightarrow> (Reminder_set new_id t', Holds pending))
                            else (Immediate_reminder (reminder_text data), file))))
      | _ \<Rightarrow> (Unknown_reminder_action, file))"

section \<open>The same-minute adjustment at minute 59\<close>

lemma same_minute_adjust_below_59:
  assumes "replace_second_microsecond requested = replace_second_microsecond now"
    and "0 \<le> minute requested" and "minute requested < 59"
  shows "same_minute_adjust now requested =
           Inr (requested\<lparr>minute := minute requested + 1, second := 0, microsecond := 0\<rparr>)"
  using assms by (simp add: same_minute_adjust_def replace_minute_def)

lemma same_minute_adjust_other_minute:
  assumes "replace_second_microsecond requested \<noteq> replace_second_microsecond now"
  shows "same_minute_adjust now requested = Inr requested"
  using assms by (simp add: same_minute_adjust_def)

definition t_1459 :: datetime where
  "t_1459 = \<lparr>year = 2023, month = 11, day = 15, hour = 14, minute = 59, second = 0, microsecond = 0\<rparr>"

definition t_145910 :: datetime where
  "t_145910 = \<lparr>year = 2023, month = 11, day = 15, hour = 14, minute = 59, second = 10,
               microsecond = 0\<rparr>"

definition strptime_1459 :: strptime where
  "strptime_1459 fmt text =
     (if fmt = ''%Y-%m-%d %H:%M'' \<and> text = ''2023-11-15 14:59'' then Some t_1459 else None)"

definition world_1459 :: world where
  "world_1459 =
     \<lparr>email_svc = mail_ok,
      parse_email_request = (\<lambda>m. Some (mail_a\<lparr>send_time := ''2023-11-15 14:59''\<rparr>)),
      parse_reminder_request =
        (\<lambda>m. Some \<lparr>reminder_text = ''call mom'', remind_time = ''2023-11-15 14:59'',
                    reminder_priority = None\<rparr>),
      lib_strptime = strptime_1459,
      current_time = t_145910,
      save_clock = \<lparr>posix_us = 1700035150000000, local_now = t_145910\<rparr>\<rparr>"

text \<open>
  C1: at 14:59:10 a request for 14:59 falls into the current minute, and the adjustment
  computes \<open>replace(minute = 59 + 1)\<close>, which raises \<open>ValueError\<close>. The outer \<open>try\<close>
  of the dispatch turns it into an error reply: the timestamp is not moved to 15:00:00, and
  nothing is scheduled or sent. The email and the reminder dispatch share the defect.
\<close>

theorem same_minute_at_59_raises:
  "same_minute_adjust t_145910 t_1459 = Inl ValueError
   \<and> execute_email_action world_1459 Missing (Send_email ''email a@b.com at 14:59 saying one'')
         ''email a@b.com at 14:59 saying one''
       = (Error_performing_email_action ValueError, [], Missing)
   \<and> execute_reminder_action world_1459 Missing (Set_reminder ''remind me at 14:59 to call mom'')
         ''remind me at 14:59 to call mom''
       = (Error_executing_reminder_action ValueError, Missing)"
proof -
  have adj: "same_minute_adjust t_145910 t_1459 = Inl ValueError"
    by (simp add: same_minute_adjust_def replace_second_microsecond_def replace_minute_def
        t_1459_def t_145910_def)
  have low: "lower ''2023-11-15 14:59'' \<noteq> ''now''"
    by (simp add: lower_def)
  have parse: "parse_send_time strptime_1459 t_145910 ''2023-11-15 14:59'' = Some t_1459"
    using low
    by (simp add: parse_send_time_def strip_def py_space_def strptime_1459_def Let_def)
  have mail: "execute_email_action world_1459 Missing (Send_email ''email a@b.com at 14:59 saying one'')
         ''email a@b.com at 14:59 saying one''
       = (Error_performing_email_action ValueError, [], Missing)"
    using low parse adj
    by (simp add: execute_email_action_def world_1459_def mail_ok_def mail_a_def Let_def)
  have remind: "execute_reminder_action world_1459 Missing
         (Set_reminder ''remind me at 14:59 to call mom'') ''remind me at 14:59 to call mom''
       = (Error_executing_reminder_action ValueError, Missing)"
    using low parse adj
    by (simp add: execute_reminder_action_def parse_remind_time_def world_1459_def Let_def)
  from adj mail remind show ?thesis
    by blast
qed

section \<open>A send time that no format matches\<close>

definition strptime_no_match :: strptime where
  "strptime_no_match fmt text = None"

definition world_next_week :: world where
  "world_next_week =
     \<lparr>email_svc = mail_ok,
      parse_email_request = (\<lambda>m. Some (mail_a\<lparr>send_time := ''next week''\<rparr>)),
      parse_reminder_request = (\<lambda>m. None),
      lib_strptime = strptime_no_match,
      current_time = t_145910,
      save_clock = \<lparr>posix_us = 1700035150000000, local_now = t_145910\<rparr>\<rparr>"

text \<open>
  C7, as stated, fails: the send time \<open>next week\<close> is not empty, is not \<open>now\<close> and
  matches none of the formats (\<open>strptime\<close> raises for each of them), so
  \<open>parse_send_time\<close> returns \<open>None\<close>. The dispatch logs that it defaults to \<open>now\<close>
  and sends the email at once; the reply is the success message of the send.
\<close>

theorem unparsed_send_time_is_sent_now:
  "parse_send_time strptime_no_match t_145910 ''next week'' = None
   \<and> execute_email_action world_next_week Missing
        (Send_email ''email a@b.com next week saying one'') ''email a@b.com next week saying one''
      = (Email_sent_successfully, [(''a@b.com'', ''first'', ''one'')], Missing)"
proof -
  have low: "lower ''next week'' \<noteq> ''now''"
    by (simp add: lower_def)
  have parse: "parse_send_time strptime_no_match t_145910 ''next week'' = None"
    using low
    by (simp add: parse_send_time_def strip_def py_space_def strptime_no_match_def
        formats_to_try_def Let_def)
  have "execute_email_action world_next_week Missing
        (Send_email ''email a@b.com next week saying one'') ''email a@b.com next week saying one''
      = (Email_sent_successfully, [(''a@b.com'', ''first'', ''one'')], Missing)"
    using low parse
    by (simp add: execute_email_action_def world_next_week_def send_immediately_def
        send_email_now_def mail_ok_def mail_a_def Let_def)
  with parse show ?thesis
    by blast
qed

text \<open>
  C7 (amended): for every email dispatch whose extracted send-time string is not empty, is
  not \<open>now\<close> and is not recognised by the time parser (it returns \<open>None\<close>), the dispatch
  sends the email immediately, as it does for \<open>now\<close>: it calls the transport once and
  replies with the outcome of that send, success or failure; nothing is scheduled.
\<close>

theorem unparsed_send_time_falls_back_to_now:
  assumes "is_available (email_svc w)"
    and "parse_email_request w user_message = Some data"
    and "send_time data \<noteq> []" and "lower (send_time data) \<noteq> ''now''"
    and "parse_send_time (lib_strptime w) (current_time w) (send_time data) = None"
  shows "execute_email_action w file (Send_email m) user_message =
           (if success (send_email_now (email_svc w) (recipient_email data) (subject data)
                          (body data))
            then Email_sent_successfully
            else Failed_to_send_email
                   (message (send_email_now (email_svc w) (recipient_email data) (subject data)
                               (body data))),
            [(recipient_email data, subject data, body data)], file)"
  using assms
  by (simp add: execute_email_action_def send_immediately_def Let_def)

theorem unparsed_send_time_falls_back_to_now_witness:
  "execute_email_action world_next_week Missing (Send_email ''m'') ''m''
     = (Email_sent_successfully, [(''a@b.com'', ''first'', ''one'')], Missing)"
proof -
  let ?data = "mail_a\<lparr>send_time := ''next week''\<rparr>"
  have low: "lower ''next week'' \<noteq> ''now''"
    by (simp add: lower_def)
  have h1: "is_available (email_svc world_next_week)"
    and h2: "parse_email_request world_next_week ''m'' = Some ?data"
    and h3: "send_time ?data \<noteq> []"
    by (simp_all add: world_next_week_def mail_ok_def)
  have h4: "lower (send_time ?data) \<noteq> ''now''"
    using low by simp
  have h5: "parse_send_time (lib_strptime world_next_week) (current_time world_next_week)
              (send_time ?data) = None"
    using low
    by (simp add: parse_send_time_def strip_def py_space_def strptime_no_match_def
        formats_to_try_def world_next_week_def Let_def)
  show ?thesis
    using unparsed_send_time_falls_back_to_now [OF h1 h2 h3 h4 h5, of Missing "''m''"]
    by (simp add: world_next_week_def send_email_now_def mail_ok_def mail_a_def)
qed

section \<open>Regular expressions of the detectors\<close>

text \<open>
  \<open>re.search(pattern, text)\<close> is used for its truth value only, so a pattern is modelled
  by the set of matches it has, not by the one match the engine would pick. A matcher state
  is the character before the current position (\<open>None\<close> at the start of the text) and the
  rest of the text; \<open>rmatch r st\<close> lists the states in which a match of \<open>r\<close> that starts
  in \<open>st\<close> can end.
\<close>

datatype regex =
    Lit string
  | Cls "char list"
  | Dot
  | Bol
  | Wordb
  | Seq regex regex
  | Alt regex regex
  | Star regex

type_synonym rstate = "char option \<times> string"

text \<open>
  \<open>\w\<close> on ASCII: letters, digits and the underscore (a character outside ASCII counts
  as non-word here). \<open>\b\<close> holds where exactly one of the two neighbouring positions is
  a word character; the ends of the text count as non-word.
\<close>

definition is_word :: "char option \<Rightarrow> bool" where
  "is_word c = (case c of None \<Rightarrow> False
                | Some x \<Rightarrow> x \<in> set (ascii_upper @ ascii_lower @ ascii_digit @ ''_''))"

definition next_char :: "string \<Rightarrow> char option" where
  "next_char s = (case s of [] \<Rightarrow> None | c # cs \<Rightarrow> Some c)"

text \<open>
  Zero or more repetitions. A repetition that consumes nothing leads to no new state, so
  only the repetitions that shorten the rest are followed.
\<close>

fun star :: "(rstate \<Rightarrow> rstate list) \<Rightarrow> rstate \<Rightarrow> rstate list" where
  "star f st =
     st # concat (map (star f) (filter (\<lambda>st'. length (snd st') < length (snd st)) (f st)))"

declare star.simps [simp del]

primrec rmatch :: "regex \<Rightarrow> rstate \<Rightarrow> rstate list" where
  "rmatch (Lit l) st =
     (if starts_with l (snd st)
      then [(if l = [] then fst st else Some (last l), drop (length l) (snd st))] else [])"
| "rmatch (Cls cs) st =
     (case snd st of [] \<Rightarrow> [] | c # rest \<Rightarrow> if c \<in> set cs then [(Some c, rest)] else [])"
| "rmatch Dot st =
     (case snd st of [] \<Rightarrow> [] | c # rest \<Rightarrow> if c \<noteq> CHR 0x0A then [(Some c, rest)] else [])"
| "rmatch Bol st = (if fst st = None then [st] else [])"
| "rmatch Wordb st = (if is_word (fst st) \<noteq> is_word (next_char (snd st)) then [st] else [])"
| "rmatch (Seq r1 r2) st = concat (map (rmatch r2) (rmatch r1 st))"
| "rmatch (Alt r1 r2) st = rmatch r1 st @ rmatch r2 st"
| "rmatch (Star r) st = star (rmatch r) st"

text \<open>Every position of the text, as a state in which a match may start.\<close>

fun starts :: "char option \<Rightarrow> string \<Rightarrow> rstate list" where
  "starts p [] = [(p, [])]"
| "starts p (c # cs) = (p, c # cs) # starts (Some c) cs"

definition re_search :: "regex \<Rightarrow> string \<Rightarrow> bool" where
  "re_search r text = list_ex (\<lambda>st. rmatch r st \<noteq> []) (starts None text)"

text \<open>The derived forms: a sequence, \<open>r+\<close>, \<open>r?\<close>, \<open>\d\<close>, \<open>\s\<close>.\<close>

definition seqs :: "regex list \<Rightarrow> regex" where
  "seqs rs = foldr Seq rs (Lit [])"

definition one_or_more :: "regex \<Rightarrow> regex" where
  "one_or_more r = Seq r (Star r)"

definition optional :: "regex \<Rightarrow> regex" where
  "optional r = Alt r (Lit [])"

definition digit :: regex where
  "digit = Cls ascii_digit"

definition whitespace :: regex where
  "whitespace = Cls py_space"

definition am_pm :: regex where
  "am_pm = Alt (Lit ''am'') (Lit ''pm'')"

section \<open>Email and reminder detection\<close>

subsection \<open>\<open>AIHandler.detect_email_action\<close>\<close>

definition email_patterns :: "string list" where
  "email_patterns =
     [''send email'', ''email'', ''send an email'', ''send a message'',
      ''send to'', ''email to'', ''message to'', ''write to'',
      ''send reminder'', ''send notification'', ''notify'',
      ''compose email'', ''draft email'', ''send mail'']"

text \<open>
  \<open>\b[A-Za-z0-9._%+-]+@[A-Za-z0-9.-]+\.[A-Z|a-z]{2,}\b\<close>; the last class contains the
  bar, as written in the source.
\<close>

definition email_regex :: regex where
  "email_regex =
     seqs [Wordb,
           one_or_more (Cls (ascii_upper @ ascii_lower @ ascii_digit @ ''._%+-'')),
           Lit ''@'',
           one_or_more (Cls (ascii_upper @ ascii_lower @ ascii_digit @ ''.-'')),
           Lit ''.'',
           Cls (ascii_upper @ ''|'' @ ascii_lower),
           Cls (ascii_upper @ ''|'' @ ascii_lower),
           Star (Cls (ascii_upper @ ''|'' @ ascii_lower)),
           Wordb]"

definition detect_email_action :: "string \<Rightarrow> action_info option" where
  "detect_email_action user_message =
     (let message_lower = lower user_message;
          has_email_address = re_search email_regex user_message;
          has_email_pattern = any_in email_patterns message_lower
      in if has_email_pattern \<and> has_email_address then Some (Send_email user_message) else None)"

subsection \<open>\<open>AIHandler.detect_reminder_action\<close>\<close>

definition reminder_patterns :: "string list" where
  "reminder_patterns =
     [''remind me'', ''reminds me'', ''notify me'', ''tell me'', ''alert me'',
      ''set a reminder'', ''set reminder'', ''reminder'',
      ''wake me up'', ''ping me'', ''buzz me'',
      ''don'' @ [CHR 0x27] @ ''t let me forget'', ''make sure i remember'',
      ''you have to notify'', ''you have to remind'',
      ''you have to tell'', ''need to remind'', ''need to notify'']"

definition at_clock :: regex where
  "at_clock = seqs [Lit ''at '', digit, optional digit, Lit '':'', digit, digit, optional am_pm]"

definition at_hour :: regex where
  "at_hour = seqs [Lit ''at '', digit, optional digit, am_pm]"

definition in_offset :: regex where
  "in_offset =
     seqs [Lit ''in '', one_or_more digit, Star whitespace,
           Alt (Lit ''minute'') (Alt (Lit ''hour'') (Alt (Lit ''min'') (Lit ''hr'')))]"

definition clock_time :: regex where
  "clock_time = seqs [digit, optional digit, Lit '':'', digit, digit, optional am_pm]"

definition time_patterns :: "regex list" where
  "time_patterns =
     [at_clock,
      at_hour,
      in_offset,
      seqs [Lit ''tomorrow at '', digit],
      Lit ''later today'',
      Lit ''tonight at'',
      seqs [Lit ''today at '', digit],
      seqs [clock_time, Star Dot, Lit ''remind''],
      seqs [digit, optional digit, am_pm, Star Dot, Lit ''remind'']]"

definition time_start_patterns :: "regex list" where
  "time_start_patterns = [Seq Bol at_clock, Seq Bol at_hour, Seq Bol clock_time]"

definition email_exclusion_patterns :: "string list" where
  "email_exclusion_patterns = [''send email'', ''email to'', ''email '', ''send to'', ''compose email'']"

definition calendar_exclusion_patterns :: "string list" where
  "calendar_exclusion_patterns =
     [''schedule'', ''calendar'', ''create meeting'', ''add to calendar'',
      ''meeting with'', ''appointment with'', ''book '', ''i have class'',
      ''i have meeting'', ''schedule meeting'']"

definition detect_reminder_action :: "string \<Rightarrow> action_info option" where
  "detect_reminder_action user_message =
     (let message_lower = lower user_message in
      if str_in ''@'' user_message then None
      else if any_in email_exclusion_patterns message_lower then None
      else if any_in calendar_exclusion_patterns message_lower then None
      else
        let has_reminder_pattern = any_in reminder_patterns message_lower;
            has_time_pattern = list_ex (\<lambda>pattern. re_search pattern message_lower) time_patterns;
            has_time_start_pattern =
              list_ex (\<lambda>pattern. re_search pattern message_lower) time_start_patterns
        in if has_reminder_pattern then Some (Set_reminder user_message)
           else if (has_time_pattern \<or> has_time_start_pattern)
                   \<and> (str_in ''me'' message_lower \<or> str_in ''i'' message_lower)
           then Some (Set_reminder user_message)
           else if has_time_start_pattern \<and> length user_message > 20
           then Some (Set_reminder user_message)
           else None)"

subsection \<open>The order of the detectors in \<open>handle_message\<close> (handlers/ai_chat.py)\<close>

text \<open>
  The calendar detector runs first, and only when the calendar is authenticated; then the
  reminder detector; then the email detector. The first detector that returns an action
  decides.
\<close>

definition classify :: "bool \<Rightarrow> string \<Rightarrow> action_info option" where
  "classify authenticated user_message =
     (case (if authenticated then detect_calendar_action user_message else None) of
        Some a \<Rightarrow> Some a
      | None \<Rightarrow>
          (case detect_reminder_action user_message of
             Some a \<Rightarrow> Some a
           | None \<Rightarrow> detect_email_action user_message))"

section \<open>What a match says about the text\<close>

lemma starts_with_subset: "starts_with p s \<Longrightarrow> set p \<subseteq> set s"
  by (induction p s rule: starts_with.induct) auto

lemma starts_subset: "st \<in> set (starts p s) \<Longrightarrow> set (snd st) \<subseteq> set s"
  by (induction s arbitrary: p) auto

lemma mem_str_in: "c \<in> set s \<Longrightarrow> str_in [c] s"
  by (induction s) auto

lemma str_in_mem: "str_in [c] s \<Longrightarrow> c \<in> set s"
  by (induction s) auto

lemma star_subset:
  "(\<forall>st st'. st' \<in> set (f st) \<longrightarrow> set (snd st') \<subseteq> set (snd st))
   \<Longrightarrow> st' \<in> set (star f st) \<Longrightarrow> set (snd st') \<subseteq> set (snd st)"
proof (induction f st arbitrary: st' rule: star.induct)
  case (1 f st)
  note step = "1.prems"(1)
  from "1.prems"(2)
  have "st' = st \<or> (\<exists>x \<in> set (f st). length (snd x) < length (snd st) \<and> st' \<in> set (star f x))"
    by (subst (asm) star.simps) auto
  then show ?case
  proof
    assume "st' = st"
    then show ?thesis by simp
  next
    assume "\<exists>x \<in> set (f st). length (snd x) < length (snd st) \<and> st' \<in> set (star f x)"
    then obtain x where x: "x \<in> set (f st)" "length (snd x) < length (snd st)"
        "st' \<in> set (star f x)"
      by blast
    from x step have "set (snd st') \<subseteq> set (snd x)"
      using "1.IH" [of x st'] by simp
    moreover from x(1) step have "set (snd x) \<subseteq> set (snd st)"
      by blast
    ultimately show ?thesis by blast
  qed
qed

lemma rmatch_subset: "st' \<in> set (rmatch r st) \<Longrightarrow> set (snd st') \<subseteq> set (snd st)"
proof (induction r arbitrary: st st')
  case (Lit l)
  then show ?case by (cases st) (auto split: if_splits dest: in_set_dropD)
next
  case (Cls cs)
  then show ?case by (cases st) (auto split: list.splits if_splits)
next
  case Dot
  then show ?case by (cases st) (auto split: list.splits if_splits)
next
  case Bol
  then show ?case by (auto split: if_splits)
next
  case Wordb
  then show ?case by (auto split: if_splits)
next
  case (Seq r1 r2)
  from Seq.prems obtain mid where "mid \<in> set (rmatch r1 st)" "st' \<in> set (rmatch r2 mid)"
    by auto
  then show ?case
    using Seq.IH by blast
next
  case (Alt r1 r2)
  from Alt.prems have "st' \<in> set (rmatch r1 st) \<or> st' \<in> set (rmatch r2 st)"
    by simp
  then show ?case
    using Alt.IH by blast
next
  case (Star r)
  then show ?case
    using star_subset [of "rmatch r" st' st] by simp
qed

lemma seq_lit_match:
  assumes "st' \<in> set (rmatch (Seq (Lit l) r) st)"
  shows "set l \<subseteq> set (snd st)"
  using assms by (auto split: if_splits dest: starts_with_subset)

lemma search_in_offset_has_i:
  assumes "re_search in_offset s"
  shows "str_in ''i'' s"
proof -
  from assms obtain st where st0: "st \<in> set (starts None s)" "rmatch in_offset st \<noteq> []"
    by (auto simp: re_search_def list_ex_iff)
  then obtain st' where st: "st \<in> set (starts None s)" "st' \<in> set (rmatch in_offset st)"
    by (cases "rmatch in_offset st") auto
  from st(2) have "set ''in '' \<subseteq> set (snd st)"
    unfolding in_offset_def seqs_def by (simp only: foldr.simps o_apply) (rule seq_lit_match)
  with st(1) have "CHR ''i'' \<in> set s"
    using starts_subset by fastforce
  then show ?thesis by (rule mem_str_in)
qed

lemma seq_match:
  assumes "st' \<in> set (rmatch (Seq r1 r2) st)"
  shows "\<exists>mid \<in> set (rmatch r1 st). st' \<in> set (rmatch r2 mid)"
  using assms by auto

lemma search_email_regex_has_at:
  assumes "re_search email_regex m"
  shows "str_in ''@'' m"
proof -
  from assms obtain st where st0: "st \<in> set (starts None m)" "rmatch email_regex st \<noteq> []"
    by (auto simp: re_search_def list_ex_iff)
  then obtain st' where "st' \<in> set (rmatch email_regex st)"
    by (cases "rmatch email_regex st") auto
  then obtain rest where whole: "st' \<in> set (rmatch (Seq Wordb
      (Seq (one_or_more (Cls (ascii_upper @ ascii_lower @ ascii_digit @ ''._%+-'')))
        (Seq (Lit ''@'') rest))) st)"
    unfolding email_regex_def seqs_def by (simp only: foldr.simps o_apply)
  from seq_match [OF whole] obtain mid1 where
    mid1: "mid1 \<in> set (rmatch Wordb st)"
      "st' \<in> set (rmatch (Seq (one_or_more (Cls (ascii_upper @ ascii_lower @ ascii_digit @ ''._%+-'')))
        (Seq (Lit ''@'') rest)) mid1)"
    by blast
  from seq_match [OF mid1(2)] obtain mid2 where
    mid2: "mid2 \<in> set (rmatch (one_or_more (Cls (ascii_upper @ ascii_lower @ ascii_digit @ ''._%+-''))) mid1)"
      "st' \<in> set (rmatch (Seq (Lit ''@'') rest) mid2)"
    by blast
  from mid2(2) have "set ''@'' \<subseteq> set (snd mid2)"
    by (rule seq_lit_match)
  moreover from mid2(1) have "set (snd mid2) \<subseteq> set (snd mid1)"
    by (rule rmatch_subset)
  moreover from mid1(1) have "set (snd mid1) \<subseteq> set (snd st)"
    by (rule rmatch_subset)
  moreover from st0(1) have "set (snd st) \<subseteq> set m"
    by (rule starts_subset)
  ultimately have "CHR ''@'' \<in> set m"
    by auto
  then show ?thesis by (rule mem_str_in)
qed

section \<open>An email request that mentions a reminder\<close>

definition email_with_reminder_word :: string where
  "email_with_reminder_word = ''send email to a@b.com reminder tomorrow at 9am''"

text \<open>
  C3: the message \<open>send email to a@b.com reminder tomorrow at 9am\<close> is classified as
  \<open>send_email\<close>, whether or not the calendar detector runs, and the reminder detector
  returns no action for it. The reason is general: a message in which the email-address
  pattern matches contains \<open>@\<close>, so the reminder detector rejects it, and with an email
  keyword the email detector accepts it.
\<close>

theorem email_request_is_not_a_reminder:
  "classify authenticated email_with_reminder_word = Some (Send_email email_with_reminder_word)
   \<and> detect_reminder_action email_with_reminder_word = None
   \<and> (re_search email_regex m \<and> any_in email_patterns (lower m) \<longrightarrow>
        detect_reminder_action m = None \<and> detect_email_action m = Some (Send_email m))"
proof -
  have cal: "detect_calendar_action email_with_reminder_word = None"
    by code_simp
  have rem: "detect_reminder_action email_with_reminder_word = None"
    by code_simp
  have mail: "detect_email_action email_with_reminder_word = Some (Send_email email_with_reminder_word)"
    by code_simp
  from cal rem mail
  have cls: "classify authenticated email_with_reminder_word = Some (Send_email email_with_reminder_word)"
    by (simp add: classify_def)
  have gen: "detect_reminder_action m = None \<and> detect_email_action m = Some (Send_email m)"
    if "re_search email_regex m \<and> any_in email_patterns (lower m)"
    using that search_email_regex_has_at [of m]
    by (simp add: detect_reminder_action_def detect_email_action_def)
  from cls rem gen show ?thesis
    by blast
qed

theorem email_request_is_not_a_reminder_witness:
  "re_search email_regex email_with_reminder_word
   \<and> any_in email_patterns (lower email_with_reminder_word)
   \<and> classify True email_with_reminder_word = Some (Send_email email_with_reminder_word)
   \<and> detect_reminder_action email_with_reminder_word = None
   \<and> detect_email_action email_with_reminder_word = Some (Send_email email_with_reminder_word)"
proof -
  have h: "re_search email_regex email_with_reminder_word
      \<and> any_in email_patterns (lower email_with_reminder_word)"
    by code_simp
  with email_request_is_not_a_reminder [of True email_with_reminder_word] show ?thesis
    by blast
qed

section \<open>Time patterns and the letter i\<close>

text \<open>
  C10: a message without \<open>@\<close> and without an email or calendar exclusion phrase, whose
  lowercase text matches one of the time patterns (or time-start patterns), is detected as
  \<open>set_reminder\<close> as soon as the lowercase text contains \<open>me\<close> or \<open>i\<close> anywhere. A
  match of the relative-offset pattern \<open>in \d+\s*(minute|hour|min|hr)\<close> contains the
  letter \<open>i\<close> itself, so every such message is a reminder, with or without a pronoun.
\<close>

theorem time_pattern_with_i_is_reminder:
  assumes "\<not> str_in ''@'' m"
    and "\<not> any_in email_exclusion_patterns (lower m)"
    and "\<not> any_in calendar_exclusion_patterns (lower m)"
  shows "((list_ex (\<lambda>pattern. re_search pattern (lower m)) time_patterns
            \<or> list_ex (\<lambda>pattern. re_search pattern (lower m)) time_start_patterns)
          \<and> (str_in ''me'' (lower m) \<or> str_in ''i'' (lower m))
          \<longrightarrow> detect_reminder_action m = Some (Set_reminder m))
         \<and> (re_search in_offset (lower m) \<longrightarrow> detect_reminder_action m = Some (Set_reminder m))"
proof (intro conjI impI)
  assume "(list_ex (\<lambda>pattern. re_search pattern (lower m)) time_patterns
            \<or> list_ex (\<lambda>pattern. re_search pattern (lower m)) time_start_patterns)
          \<and> (str_in ''me'' (lower m) \<or> str_in ''i'' (lower m))"
  with assms show "detect_reminder_action m = Some (Set_reminder m)"
    by (simp add: detect_reminder_action_def Let_def)
next
  assume off: "re_search in_offset (lower m)"
  then have i: "str_in ''i'' (lower m)"
    by (rule search_in_offset_has_i)
  from off have "list_ex (\<lambda>pattern. re_search pattern (lower m)) time_patterns"
    by (simp add: time_patterns_def)
  with assms i show "detect_reminder_action m = Some (Set_reminder m)"
    by (simp add: detect_reminder_action_def Let_def)
qed

theorem time_pattern_with_i_is_reminder_witness:
  "re_search in_offset (lower ''Call mom in 30 minutes'')
   \<and> \<not> str_in ''me'' (lower ''Call mom in 30 minutes'')
   \<and> detect_reminder_action ''Call mom in 30 minutes'' = Some (Set_reminder ''Call mom in 30 minutes'')"
proof -
  have h1: "\<not> str_in ''@'' ''Call mom in 30 minutes''"
    and h2: "\<not> any_in email_exclusion_patterns (lower ''Call mom in 30 minutes'')"
    and h3: "\<not> any_in calendar_exclusion_patterns (lower ''Call mom in 30 minutes'')"
    by code_simp+
  have off: "re_search in_offset (lower ''Call mom in 30 minutes'')"
    by code_simp
  have nome: "\<not> str_in ''me'' (lower ''Call mom in 30 minutes'')"
    by code_simp
  from time_pattern_with_i_is_reminder [OF h1 h2 h3] off nome show ?thesis
    by blast
qed

section \<open>Calendar reminders\<close>

subsection \<open>\<open>CalendarHandler.get_events_needing_reminders\<close>\<close>

text \<open>
  An event as the calendar API lists it, with \<open>event_datetime\<close> as the loop computes it;
  times are absolute, in microseconds. \<open>minutes_until_event\<close> is the difference divided by
  60, so a bound of \<open>n\<close> minutes on it is a bound of \<open>n * 60000000\<close> on the difference.
\<close>

datatype reminder_class = Before | At_time

record calendar_event =
  event_id :: string
  event_datetime :: int

record event_info =
  info_id :: string
  start_datetime :: int
  reminder_type :: reminder_class
  info_reminder_id :: string
  minutes_until :: int

definition before_reminder_id :: "string \<Rightarrow> int \<Rightarrow> string" where
  "before_reminder_id eid minutes_before = eid @ ''_before_'' @ str_int minutes_before"

definition at_time_reminder_id :: "string \<Rightarrow> string" where
  "at_time_reminder_id eid = eid @ ''_at_time''"

definition minute_us :: int where
  "minute_us = 60000000"

text \<open>One iteration of \<open>for event in events\<close>: the entry appended, if any.\<close>

definition reminder_needed ::
  "string set \<Rightarrow> int \<Rightarrow> int \<Rightarrow> bool \<Rightarrow> calendar_event \<Rightarrow> event_info list" where
  "reminder_needed sent now minutes_before at_event_time ev =
     (if event_datetime ev \<le> now then []
      else
        let until = event_datetime ev - now;
            before_id = before_reminder_id (event_id ev) minutes_before;
            at_id = at_time_reminder_id (event_id ev)
        in if minutes_before * minute_us \<le> until \<and> until \<le> (minutes_before + 5) * minute_us
              \<and> before_id \<notin> sent
           then [\<lparr>info_id = event_id ev, start_datetime = event_datetime ev,
                  reminder_type = Before, info_reminder_id = before_id,
                  minutes_until = until div minute_us\<rparr>]
           else if at_event_time \<and> 0 \<le> until \<and> until \<le> 5 * minute_us \<and> at_id \<notin> sent
           then [\<lparr>info_id = event_id ev, start_datetime = event_datetime ev,
                  reminder_type = At_time, info_reminder_id = at_id,
                  minutes_until = until div minute_us\<rparr>]
           else [])"

fun events_needing ::
  "string set \<Rightarrow> int \<Rightarrow> int \<Rightarrow> bool \<Rightarrow> calendar_event list \<Rightarrow> event_info list" where
  "events_needing sent now minutes_before at_event_time [] = []"
| "events_needing sent now minutes_before at_event_time (ev # evs) =
     reminder_needed sent now minutes_before at_event_time ev
     @ events_needing sent now minutes_before at_event_time evs"

text \<open>
  \<open>listed\<close> is the answer of the calendar API for the next hour, \<open>None\<close> when the call
  raised; the function catches the exception and returns the empty list.
\<close>

definition get_events_needing_reminders ::
  "string set \<Rightarrow> bool \<Rightarrow> int \<Rightarrow> calendar_event list option \<Rightarrow> int \<Rightarrow> bool \<Rightarrow> event_info list" where
  "get_events_needing_reminders sent authenticated now listed minutes_before at_event_time =
     (if \<not> authenticated then []
      else case listed of
             None \<Rightarrow> []
           | Some events \<Rightarrow> events_needing sent now minutes_before at_event_time events)"

subsection \<open>\<open>mark_reminder_sent\<close> and \<open>cleanup_old_reminders\<close> of the calendar handler\<close>

definition mark_reminder_sent :: "string \<Rightarrow> string set \<Rightarrow> string set" where
  "mark_reminder_sent rid sent = insert rid sent"

definition cleanup_sent_reminders :: "string set \<Rightarrow> string set" where
  "cleanup_sent_reminders sent = (if card sent > 1000 then {} else sent)"

subsection \<open>\<open>send_calendar_reminders\<close> (handlers/scheduled_tasks.py)\<close>

text \<open>
  \<open>REMINDER_MINUTES_BEFORE\<close> and \<open>REMINDER_AT_EVENT_TIME\<close> are the constants of
  config.py. A tick meets the chat id, the authentication state, the current time, the
  calendar's answer, and for each reminder whether formatting and sending it succeeds
  (\<open>False\<close>: \<open>send_message\<close> raised, which the loop logs). The tick returns the set of
  sent-reminder marks afterwards and the reminders it formatted and sent, each with the
  outcome, in order.
\<close>

definition REMINDER_MINUTES_BEFORE :: int where
  "REMINDER_MINUTES_BEFORE = 15"

definition REMINDER_AT_EVENT_TIME :: bool where
  "REMINDER_AT_EVENT_TIME = True"

record calendar_tick =
  chat_id :: "string option"
  calendar_authenticated :: bool
  calendar_now :: int
  listed_events :: "calendar_event list option"
  send_succeeds :: "event_info \<Rightarrow> bool"

fun send_each ::
  "(event_info \<Rightarrow> bool) \<Rightarrow> event_info list \<Rightarrow> string set
     \<Rightarrow> string set \<times> (event_info \<times> bool) list" where
  "send_each ok [] sent = (sent, [])"
| "send_each ok (e # es) sent =
     (let delivered = ok e;
          sent' = (if delivered then mark_reminder_sent (info_reminder_id e) sent else sent);
          (sent'', invoked) = send_each ok es sent'
      in (sent'', (e, delivered) # invoked))"

definition send_calendar_reminders ::
  "calendar_tick \<Rightarrow> string set \<Rightarrow> string set \<times> (event_info \<times> bool) list" where
  "send_calendar_reminders t sent =
     (if chat_id t = None then (sent, [])
      else if \<not> calendar_authenticated t then (sent, [])
      else
        let events_needing_reminders =
              get_events_needing_reminders sent (calendar_authenticated t) (calendar_now t)
                (listed_events t) REMINDER_MINUTES_BEFORE REMINDER_AT_EVENT_TIME;
            (sent', invoked) = send_each (send_succeeds t) events_needing_reminders sent
        in (if length events_needing_reminders > 0 then cleanup_sent_reminders sent' else sent',
            invoked))"

text \<open>A sequence of ticks, each starting from the marks the previous one left.\<close>

fun run_ticks ::
  "calendar_tick list \<Rightarrow> string set \<Rightarrow> string set \<times> (event_info \<times> bool) list" where
  "run_ticks [] sent = (sent, [])"
| "run_ticks (t # ts) sent =
     (let (sent', invoked) = send_calendar_reminders t sent;
          (sent'', invoked_later) = run_ticks ts sent'
      in (sent'', invoked @ invoked_later))"

text \<open>
  The invocations of format-and-send for one event id and reminder class, and those among
  them that succeeded.
\<close>

definition invocations_of ::
  "string \<Rightarrow> reminder_class \<Rightarrow> (event_info \<times> bool) list \<Rightarrow> (event_info \<times> bool) list" where
  "invocations_of eid cls invoked =
     filter (\<lambda>p. info_id (fst p) = eid \<and> reminder_type (fst p) = cls) invoked"

definition successes_of ::
  "string \<Rightarrow> reminder_class \<Rightarrow> (event_info \<times> bool) list \<Rightarrow> (event_info \<times> bool) list" where
  "successes_of eid cls invoked = filter snd (invocations_of eid cls invoked)"

definition events_of :: "calendar_tick \<Rightarrow> calendar_event list" where
  "events_of t = (case listed_events t of None \<Rightarrow> [] | Some events \<Rightarrow> events)"

text \<open>
  The safety valve of a tick: \<open>cleanup_old_reminders\<close> is called when the tick selected
  at least one reminder, and it clears the set when the set holds more than 1000 marks.
  \<open>never_cleared ticks sent\<close> says that the valve clears the set in none of the ticks
  of a run that starts from \<open>sent\<close>.
\<close>

definition valve_clears :: "calendar_tick \<Rightarrow> string set \<Rightarrow> bool" where
  "valve_clears t sent =
     (chat_id t \<noteq> None \<and> calendar_authenticated t \<and>
      (let events_needing_reminders =
             get_events_needing_reminders sent (calendar_authenticated t) (calendar_now t)
               (listed_events t) REMINDER_MINUTES_BEFORE REMINDER_AT_EVENT_TIME;
           (sent', invoked) = send_each (send_succeeds t) events_needing_reminders sent
       in length events_needing_reminders > 0 \<and> card sent' > 1000))"

fun never_cleared :: "calendar_tick list \<Rightarrow> string set \<Rightarrow> bool" where
  "never_cleared [] sent = True"
| "never_cleared (t # ts) sent =
     (\<not> valve_clears t sent \<and> never_cleared ts (fst (send_calendar_reminders t sent)))"

text \<open>The mark that stands for an event id and a reminder class in the tick.\<close>

definition mark_of :: "string \<Rightarrow> reminder_class \<Rightarrow> string" where
  "mark_of eid cls =
     (case cls of Before \<Rightarrow> before_reminder_id eid REMINDER_MINUTES_BEFORE
      | At_time \<Rightarrow> at_time_reminder_id eid)"

lemma send_each_eq:
  "send_each ok es sent =
     (sent \<union> info_reminder_id ` {e \<in> set es. ok e}, map (\<lambda>e. (e, ok e)) es)"
  by (induction es arbitrary: sent) (auto simp: mark_reminder_sent_def Let_def)

lemma reminder_needed_cases:
  "reminder_needed sent now mb at ev = [] \<or>
   (\<exists>e. reminder_needed sent now mb at ev = [e] \<and> info_id e = event_id ev
        \<and> info_reminder_id e \<notin> sent
        \<and> info_reminder_id e =
            (case reminder_type e of Before \<Rightarrow> before_reminder_id (info_id e) mb
             | At_time \<Rightarrow> at_time_reminder_id (info_id e)))"
  by (simp add: reminder_needed_def Let_def)

lemma events_needing_mem:
  assumes "e \<in> set (events_needing sent now mb at evs)"
  shows "info_id e \<in> event_id ` set evs \<and> info_reminder_id e \<notin> sent
         \<and> info_reminder_id e =
            (case reminder_type e of Before \<Rightarrow> before_reminder_id (info_id e) mb
             | At_time \<Rightarrow> at_time_reminder_id (info_id e))"
  using assms
proof (induction evs)
  case Nil
  then show ?case by simp
next
  case (Cons ev evs)
  from Cons.prems have "e \<in> set (reminder_needed sent now mb at ev)
      \<or> e \<in> set (events_needing sent now mb at evs)"
    by simp
  then show ?case
  proof
    assume "e \<in> set (reminder_needed sent now mb at ev)"
    with reminder_needed_cases [of sent now mb at ev] show ?thesis
      by auto
  next
    assume "e \<in> set (events_needing sent now mb at evs)"
    with Cons.IH show ?thesis
      by auto
  qed
qed

lemma events_needing_distinct:
  assumes "distinct (map event_id evs)"
  shows "distinct (map info_id (events_needing sent now mb at evs))"
  using assms
proof (induction evs)
  case Nil
  then show ?case by simp
next
  case (Cons ev evs)
  have later: "info_id e \<noteq> event_id ev" if "e \<in> set (events_needing sent now mb at evs)" for e
    using events_needing_mem [OF that] Cons.prems by auto
  from Cons have rest: "distinct (map info_id (events_needing sent now mb at evs))"
    by simp
  from reminder_needed_cases [of sent now mb at ev]
  consider (none) "reminder_needed sent now mb at ev = []"
    | (one) e where "reminder_needed sent now mb at ev = [e]" "info_id e = event_id ev"
    by blast
  then show ?case
  proof cases
    case none
    with rest show ?thesis by simp
  next
    case one
    from later one(2) have "info_id e \<notin> info_id ` set (events_needing sent now mb at evs)"
      by force
    with rest one(1) show ?thesis by simp
  qed
qed

lemma events_needing_length:
  "length (events_needing sent now mb at evs) \<le> length evs"
proof (induction evs)
  case Nil
  then show ?case by simp
next
  case (Cons ev evs)
  from reminder_needed_cases [of sent now mb at ev]
  have "length (reminder_needed sent now mb at ev) \<le> 1"
    by auto
  with Cons show ?case by simp
qed

lemma filter_distinct_key:
  assumes "distinct (map g xs)"
  shows "length (filter (\<lambda>x. g x = a \<and> Q x) xs) \<le> 1"
  using assms
proof (induction xs)
  case Nil
  then show ?case by simp
next
  case (Cons x xs)
  show ?case
  proof (cases "g x = a")
    case True
    with Cons.prems have "a \<notin> g ` set xs"
      by simp
    then have "\<forall>y \<in> set xs. g y \<noteq> a"
      by blast
    then have "filter (\<lambda>x. g x = a \<and> Q x) xs = []"
      by (simp add: filter_empty_conv)
    then show ?thesis by simp
  next
    case False
    with Cons show ?thesis by simp
  qed
qed

text \<open>The reminders a tick selects, with its early returns folded in.\<close>

definition needing_of :: "calendar_tick \<Rightarrow> string set \<Rightarrow> event_info list" where
  "needing_of t sent =
     (if chat_id t = None \<or> \<not> calendar_authenticated t then []
      else events_needing sent (calendar_now t) REMINDER_MINUTES_BEFORE REMINDER_AT_EVENT_TIME
             (events_of t))"

lemma tick_eq:
  "send_calendar_reminders t sent =
     (let sent' = sent \<union> info_reminder_id ` {e \<in> set (needing_of t sent). send_succeeds t e}
      in (if needing_of t sent \<noteq> [] then cleanup_sent_reminders sent' else sent',
          map (\<lambda>e. (e, send_succeeds t e)) (needing_of t sent)))"
  by (auto simp: send_calendar_reminders_def get_events_needing_reminders_def needing_of_def
      events_of_def send_each_eq Let_def split: option.splits)

lemma needing_of_mem:
  assumes "e \<in> set (needing_of t sent)"
  shows "info_reminder_id e \<notin> sent" and "info_reminder_id e = mark_of (info_id e) (reminder_type e)"
  using assms events_needing_mem
    [of e sent "calendar_now t" REMINDER_MINUTES_BEFORE REMINDER_AT_EVENT_TIME "events_of t"]
  by (auto simp: needing_of_def mark_of_def split: if_splits reminder_class.splits)

lemma needing_of_distinct:
  assumes "distinct (map event_id (events_of t))"
  shows "distinct (map info_id (needing_of t sent))"
  using assms by (simp add: needing_of_def events_needing_distinct)

lemma needing_of_length: "length (needing_of t sent) \<le> length (events_of t)"
  by (simp add: needing_of_def events_needing_length)

lemma marks_card:
  assumes "finite sent"
  shows "card (sent \<union> info_reminder_id ` {e \<in> set (needing_of t sent). send_succeeds t e})
           \<le> card sent + length (events_of t)"
proof -
  let ?A = "{e \<in> set (needing_of t sent). send_succeeds t e}"
  have "card (info_reminder_id ` ?A) \<le> card ?A"
    by (simp add: card_image_le)
  also have "\<dots> \<le> card (set (needing_of t sent))"
    by (simp add: card_mono)
  also have "\<dots> \<le> length (needing_of t sent)"
    by (rule card_length)
  also have "\<dots> \<le> length (events_of t)"
    by (rule needing_of_length)
  finally have "card (info_reminder_id ` ?A) \<le> length (events_of t)" .
  moreover have "card (sent \<union> info_reminder_id ` ?A) \<le> card sent + card (info_reminder_id ` ?A)"
    by (rule card_Un_le)
  ultimately show ?thesis by linarith
qed

lemma valve_clears_eq:
  "valve_clears t sent =
     (needing_of t sent \<noteq> []
      \<and> card (sent \<union> info_reminder_id ` {e \<in> set (needing_of t sent). send_succeeds t e}) > 1000)"
  by (auto simp: valve_clears_def get_events_needing_reminders_def needing_of_def
      events_of_def send_each_eq Let_def split: option.splits)

lemma tick_marks:
  assumes "\<not> valve_clears t sent"
  shows "fst (send_calendar_reminders t sent) =
           sent \<union> info_reminder_id ` {e \<in> set (needing_of t sent). send_succeeds t e}"
  using assms
  by (auto simp: valve_clears_eq tick_eq Let_def cleanup_sent_reminders_def)

lemma tick_invoked:
  "snd (send_calendar_reminders t sent) = map (\<lambda>e. (e, send_succeeds t e)) (needing_of t sent)"
  by (simp add: tick_eq Let_def)

lemma tick_no_invocation_when_marked:
  assumes "mark_of eid cls \<in> sent"
  shows "invocations_of eid cls (snd (send_calendar_reminders t sent)) = []"
  using assms needing_of_mem [of _ t sent]
  by (auto simp: tick_invoked invocations_of_def filter_empty_conv)

lemma tick_success_once:
  assumes "distinct (map event_id (events_of t))"
  shows "length (successes_of eid cls (snd (send_calendar_reminders t sent))) \<le> 1"
proof -
  have "successes_of eid cls (snd (send_calendar_reminders t sent)) =
      map (\<lambda>e. (e, send_succeeds t e))
        (filter (\<lambda>e. info_id e = eid \<and> (reminder_type e = cls \<and> send_succeeds t e))
           (needing_of t sent))"
    by (simp add: tick_invoked successes_of_def invocations_of_def filter_map comp_def conj_commute conj_left_commute)
  moreover have "length (filter (\<lambda>e. info_id e = eid \<and> (reminder_type e = cls \<and> send_succeeds t e))
           (needing_of t sent)) \<le> 1"
    by (rule filter_distinct_key) (rule needing_of_distinct [OF assms])
  ultimately show ?thesis by simp
qed

lemma tick_success_marks:
  assumes "\<not> valve_clears t sent"
    and "successes_of eid cls (snd (send_calendar_reminders t sent)) \<noteq> []"
  shows "mark_of eid cls \<in> fst (send_calendar_reminders t sent)"
proof -
  from assms(2) obtain e where e: "e \<in> set (needing_of t sent)" "send_succeeds t e"
      "info_id e = eid" "reminder_type e = cls"
    by (auto simp: tick_invoked successes_of_def invocations_of_def filter_empty_conv)
  from e(1) have "info_reminder_id e = mark_of (info_id e) (reminder_type e)"
    by (rule needing_of_mem)
  moreover from e have "info_reminder_id e
      \<in> info_reminder_id ` {e \<in> set (needing_of t sent). send_succeeds t e}"
    by blast
  ultimately show ?thesis
    using e(3,4) by (simp add: tick_marks [OF assms(1)])
qed

lemma run_ticks_once:
  assumes "\<forall>t \<in> set ticks. distinct (map event_id (events_of t))"
    and "never_cleared ticks sent"
  shows "length (successes_of eid cls (snd (run_ticks ticks sent))) \<le> 1
         \<and> (mark_of eid cls \<in> sent \<longrightarrow> invocations_of eid cls (snd (run_ticks ticks sent)) = [])"
  using assms
proof (induction ticks arbitrary: sent)
  case Nil
  then show ?case by (simp add: successes_of_def invocations_of_def)
next
  case (Cons t ts)
  let ?one = "send_calendar_reminders t sent"
  let ?rest = "run_ticks ts (fst ?one)"
  from Cons.prems(2) have quiet: "\<not> valve_clears t sent"
    and later: "never_cleared ts (fst ?one)"
    by simp_all
  have marks: "fst ?one = sent \<union> info_reminder_id ` {e \<in> set (needing_of t sent). send_succeeds t e}"
    using quiet by (rule tick_marks)
  from Cons.prems(1) have dist: "\<forall>t \<in> set ts. distinct (map event_id (events_of t))"
    and dist1: "distinct (map event_id (events_of t))"
    by simp_all
  note IH = Cons.IH [OF dist later]
  have app: "snd (run_ticks (t # ts) sent) = snd ?one @ snd ?rest"
    by (simp add: split_beta Let_def)
  have succ_split: "successes_of eid cls (snd (run_ticks (t # ts) sent)) =
      successes_of eid cls (snd ?one) @ successes_of eid cls (snd ?rest)"
    by (simp only: app successes_of_def invocations_of_def filter_append)
  have inv_split: "invocations_of eid cls (snd (run_ticks (t # ts) sent)) =
      invocations_of eid cls (snd ?one) @ invocations_of eid cls (snd ?rest)"
    by (simp only: app invocations_of_def filter_append)
  have first: "length (successes_of eid cls (snd ?one)) \<le> 1"
    using dist1 by (rule tick_success_once)
  have part1: "length (successes_of eid cls (snd (run_ticks (t # ts) sent))) \<le> 1"
  proof (cases "successes_of eid cls (snd ?one) = []")
    case True
    with IH show ?thesis unfolding succ_split by simp
  next
    case False
    with quiet have "mark_of eid cls \<in> fst ?one"
      by (rule tick_success_marks)
    with IH have "invocations_of eid cls (snd ?rest) = []"
      by simp
    then have "successes_of eid cls (snd ?rest) = []"
      by (simp add: successes_of_def)
    with first show ?thesis unfolding succ_split by simp
  qed
  have part2: "invocations_of eid cls (snd (run_ticks (t # ts) sent)) = []"
    if m: "mark_of eid cls \<in> sent"
  proof -
    from m have "invocations_of eid cls (snd ?one) = []"
      by (rule tick_no_invocation_when_marked)
    moreover from m have "mark_of eid cls \<in> fst ?one"
      by (simp add: marks)
    with IH have "invocations_of eid cls (snd ?rest) = []"
      by simp
    ultimately show ?thesis unfolding inv_split by simp
  qed
  from part1 part2 show ?case by blast
qed

text \<open>
  A run is free of clearing in particular when the marks it starts with and the events
  listed over all its ticks together stay within the cap.
\<close>

lemma room_never_cleared:
  assumes "finite sent"
    and "card sent + sum_list (map (\<lambda>t. length (events_of t)) ticks) \<le> 1000"
  shows "never_cleared ticks sent"
  using assms
proof (induction ticks arbitrary: sent)
  case Nil
  then show ?case by simp
next
  case (Cons t ts)
  let ?marks = "sent \<union> info_reminder_id ` {e \<in> set (needing_of t sent). send_succeeds t e}"
  from marks_card [OF Cons.prems(1), of t] Cons.prems(2)
  have small: "card ?marks + sum_list (map (\<lambda>t. length (events_of t)) ts) \<le> 1000"
    by simp
  then have quiet: "\<not> valve_clears t sent"
    by (simp add: valve_clears_eq)
  then have marks: "fst (send_calendar_reminders t sent) = ?marks"
    by (rule tick_marks)
  from Cons.prems(1) have fin: "finite ?marks"
    by simp
  from fin small have "never_cleared ts ?marks"
    by (rule Cons.IH)
  with quiet marks show ?case
    by simp
qed

section \<open>How often a calendar reminder is sent\<close>

definition standup :: calendar_event where
  "standup = \<lparr>event_id = ''evt1'', event_datetime = 1200000000\<rparr>"

definition tick_at :: "int \<Rightarrow> bool \<Rightarrow> calendar_tick" where
  "tick_at now delivered =
     \<lparr>chat_id = Some ''42'', calendar_authenticated = True, calendar_now = now,
      listed_events = Some [standup], send_succeeds = (\<lambda>e. delivered)\<rparr>"

lemma before_id_evt1: "before_reminder_id ''evt1'' 15 = ''evt1_before_15''"
  by (simp add: before_reminder_id_def str_int_def ascii_digit_def)

text \<open>
  A run of any number of ticks over a calendar that lists the one event never clears the
  set: after the first successful send the set holds one mark and stays as it is.
\<close>

lemma marked_tick_keeps_set:
  "\<not> valve_clears (tick_at 0 True) {''evt1_before_15''}
   \<and> fst (send_calendar_reminders (tick_at 0 True) {''evt1_before_15''}) = {''evt1_before_15''}"
  by (simp add: valve_clears_def send_calendar_reminders_def get_events_needing_reminders_def
      reminder_needed_def tick_at_def standup_def minute_us_def before_id_evt1
      REMINDER_MINUTES_BEFORE_def REMINDER_AT_EVENT_TIME_def at_time_reminder_id_def Let_def)

lemma repeated_tick_never_cleared_marked:
  "never_cleared (replicate n (tick_at 0 True)) {''evt1_before_15''}"
  by (induction n) (simp_all add: marked_tick_keeps_set)

lemma first_tick_marks:
  "\<not> valve_clears (tick_at 0 True) {}
   \<and> fst (send_calendar_reminders (tick_at 0 True) {}) = {''evt1_before_15''}"
  by (simp add: valve_clears_def send_calendar_reminders_def get_events_needing_reminders_def
      reminder_needed_def tick_at_def standup_def minute_us_def before_id_evt1
      REMINDER_MINUTES_BEFORE_def REMINDER_AT_EVENT_TIME_def cleanup_sent_reminders_def
      mark_reminder_sent_def Let_def)

lemma repeated_tick_never_cleared:
  "never_cleared (replicate n (tick_at 0 True)) {}"
  by (cases n) (simp_all add: first_tick_marks repeated_tick_never_cleared_marked)

text \<open>
  C5, as stated, fails: \<open>mark_reminder_sent\<close> is reached only when \<open>send_message\<close>
  returned, so a reminder whose send raised is not marked and is selected again. The event
  starts 20 minutes after the first tick; that tick's send fails, and the tick five minutes
  later, still inside the window of 15 to 20 minutes, formats and sends the same
  \<open>before\<close> reminder a second time.
\<close>

theorem reminder_sent_again_after_failure:
  "map (\<lambda>p. (info_reminder_id (fst p), snd p))
     (invocations_of ''evt1'' Before (snd (run_ticks [tick_at 0 False, tick_at 300000000 True] {})))
     = [(''evt1_before_15'', False), (''evt1_before_15'', True)]"
  by (simp add: send_calendar_reminders_def get_events_needing_reminders_def
      reminder_needed_def tick_at_def standup_def minute_us_def before_id_evt1
      REMINDER_MINUTES_BEFORE_def REMINDER_AT_EVENT_TIME_def cleanup_sent_reminders_def
      invocations_of_def Let_def)

text \<open>
  C5 (amended): for every calendar event id and reminder class, over every sequence of
  ticks in which the calendar lists no event id twice within one tick and the safety valve
  never clears the set of marks, the format-and-send step for that pair succeeds at most
  once, and it is not invoked at all once the pair's mark is in the set: the mark is tested
  before dispatch and added after a successful send.
\<close>

theorem calendar_reminder_delivered_at_most_once:
  assumes "\<forall>t \<in> set ticks. distinct (map event_id (events_of t))"
    and "never_cleared ticks sent"
  shows "length (successes_of eid cls (snd (run_ticks ticks sent))) \<le> 1
         \<and> (mark_of eid cls \<in> sent \<longrightarrow> invocations_of eid cls (snd (run_ticks ticks sent)) = [])"
  using assms by (rule run_ticks_once)

theorem calendar_reminder_delivered_at_most_once_witness:
  "never_cleared [tick_at 0 False, tick_at 300000000 True] {}
   \<and> length (successes_of ''evt1'' Before
       (snd (run_ticks [tick_at 0 False, tick_at 300000000 True] {}))) \<le> 1
   \<and> never_cleared [tick_at 300000000 True] {''evt1_before_15''}
   \<and> invocations_of ''evt1'' Before
       (snd (run_ticks [tick_at 300000000 True] {''evt1_before_15''})) = []"
proof -
  let ?ticks = "[tick_at 0 False, tick_at 300000000 True]"
  have d: "\<forall>t \<in> set ?ticks. distinct (map event_id (events_of t))"
    by (simp add: events_of_def tick_at_def)
  have q: "never_cleared ?ticks {}"
    by (simp add: valve_clears_def send_calendar_reminders_def get_events_needing_reminders_def
        reminder_needed_def tick_at_def standup_def minute_us_def before_id_evt1
        REMINDER_MINUTES_BEFORE_def REMINDER_AT_EVENT_TIME_def cleanup_sent_reminders_def
        mark_reminder_sent_def Let_def)
  have d1: "\<forall>t \<in> set [tick_at 300000000 True]. distinct (map event_id (events_of t))"
    by (simp add: events_of_def tick_at_def)
  have q1: "never_cleared [tick_at 300000000 True] {''evt1_before_15''}"
    by (simp add: valve_clears_def send_calendar_reminders_def get_events_needing_reminders_def
        reminder_needed_def tick_at_def standup_def minute_us_def before_id_evt1
        REMINDER_MINUTES_BEFORE_def REMINDER_AT_EVENT_TIME_def cleanup_sent_reminders_def
        mark_reminder_sent_def Let_def)
  have m: "mark_of ''evt1'' Before \<in> {''evt1_before_15''}"
    by (simp add: mark_of_def REMINDER_MINUTES_BEFORE_def before_id_evt1)
  from calendar_reminder_delivered_at_most_once [OF d q, of "''evt1''" Before]
    calendar_reminder_delivered_at_most_once [OF d1 q1, of "''evt1''" Before] m q q1
  show ?thesis
    by simp
qed

end
